theory Spec2Isabelle
  imports Complex_Main
begin

section \<open>Geometry kernel\<close>

text \<open>
  A vertex is the TypeScript tuple \<^verbatim>\<open>[number, number]\<close>, in percent of the image box.
  JavaScript numbers are modelled as real numbers: rounding of doubles, NaN and the
  infinities are outside the model.
\<close>

type_synonym point = "real \<times> real"

text \<open>
  \<^verbatim>\<open>centroid\<close> (main.ts, 87-93): the two \<^verbatim>\<open>reduce\<close> calls are left folds from 0.
\<close>

definition centroid :: "point list \<Rightarrow> point" where
  "centroid points =
     (let n = length points in
      if n = 0 then (50, 50)
      else
        let sumX = foldl (\<lambda>s p. s + fst p) 0 points;
            sumY = foldl (\<lambda>s p. s + snd p) 0 points
        in (sumX / real n, sumY / real n))"

text \<open>
  \<^verbatim>\<open>smoothClosedPath\<close> (main.ts, 59-84) builds the text of an SVG path. The conversion of
  a number to text inside a template literal is a JavaScript builtin; it is the parameter
  \<open>num\<close> of the model.
\<close>

definition coords :: "(real \<Rightarrow> string) \<Rightarrow> point \<Rightarrow> string" where
  "coords num p = num (fst p) @ '','' @ num (snd p)"

text \<open>\<^verbatim>\<open>Array.prototype.join\<close> on an array of strings.\<close>

fun join :: "string \<Rightarrow> string list \<Rightarrow> string" where
  "join sep [] = []"
| "join sep [x] = x"
| "join sep (x # y # ys) = x @ sep @ join sep (y # ys)"

text \<open>
  The callback of \<^verbatim>\<open>points.map((p, i) => ...)\<close> in the branch for fewer than three
  points: \<^verbatim>\<open>M\<close> for index 0, \<^verbatim>\<open>L\<close> for the others.
\<close>

definition straightItem :: "(real \<Rightarrow> string) \<Rightarrow> nat \<Rightarrow> point \<Rightarrow> string" where
  "straightItem num i p = (if i = 0 then ''M '' @ coords num p else ''L '' @ coords num p)"

text \<open>
  The body of the loop, for index \<open>i\<close>: the cyclic neighbours \<open>p0, p1, p2, p3\<close> and the
  two control points of the Catmull-Rom to Bezier conversion with tension 0.35. The index
  \<^verbatim>\<open>(i - 1 + n) % n\<close> is written \<open>(i + n - 1) mod n\<close>, since subtraction on \<open>nat\<close>
  truncates at 0. The result is the triple (first control point, second control point,
  end point \<open>p2\<close>).
\<close>

definition bezierSegment :: "point list \<Rightarrow> nat \<Rightarrow> point \<times> point \<times> point" where
  "bezierSegment points i =
     (let n = length points;
          p0 = points ! ((i + n - 1) mod n);
          p1 = points ! i;
          p2 = points ! ((i + 1) mod n);
          p3 = points ! ((i + 2) mod n);
          tension = 35 / 100;
          cp1x = fst p1 + (fst p2 - fst p0) * tension;
          cp1y = snd p1 + (snd p2 - snd p0) * tension;
          cp2x = fst p2 - (fst p3 - fst p1) * tension;
          cp2y = snd p2 - (snd p3 - snd p1) * tension
      in ((cp1x, cp1y), (cp2x, cp2y), p2))"

definition curveText :: "(real \<Rightarrow> string) \<Rightarrow> point \<times> point \<times> point \<Rightarrow> string" where
  "curveText num s =
     (case s of (cp1, cp2, p2) \<Rightarrow>
        '' C '' @ coords num cp1 @ '' '' @ coords num cp2 @ '' '' @ coords num p2)"

text \<open>The loop \<^verbatim>\<open>for (let i = 0; i < n; i++) d += ...\<close>, from index \<open>i\<close> with text \<open>d\<close>.\<close>

function curveLoop :: "(real \<Rightarrow> string) \<Rightarrow> point list \<Rightarrow> nat \<Rightarrow> string \<Rightarrow> string" where
  "curveLoop num points i d =
     (if i < length points
      then curveLoop num points (Suc i) (d @ curveText num (bezierSegment points i))
      else d)"
  by pat_completeness auto
termination
  by (relation "measure (\<lambda>(num, points, i, d). length points - i)") auto

definition smoothClosedPath :: "(real \<Rightarrow> string) \<Rightarrow> point list \<Rightarrow> string" where
  "smoothClosedPath num points =
     (let n = length points in
      if n < 3
      then join '' '' (map (\<lambda>(i, p). straightItem num i p) (zip [0..<n] points)) @ '' Z''
      else
        let d = ''M '' @ coords num (points ! 0);
            d = curveLoop num points 0 d
        in d @ '' Z'')"

subsection \<open>The path as a list of drawing commands\<close>

text \<open>
  To speak about the curve and not about its text, the commands that the text spells
  out are named, with the way they are printed and the way a pen follows them:
  \<^verbatim>\<open>Z\<close> draws a straight line back to the point of the last \<^verbatim>\<open>M\<close>.
\<close>

datatype pathCmd =
    MoveTo point
  | LineTo point
  | CurveTo point point point
  | ClosePath

fun cmdText :: "(real \<Rightarrow> string) \<Rightarrow> pathCmd \<Rightarrow> string" where
  "cmdText num (MoveTo p) = ''M '' @ coords num p"
| "cmdText num (LineTo p) = ''L '' @ coords num p"
| "cmdText num (CurveTo c1 c2 p) =
     ''C '' @ coords num c1 @ '' '' @ coords num c2 @ '' '' @ coords num p"
| "cmdText num ClosePath = ''Z''"

definition pathText :: "(real \<Rightarrow> string) \<Rightarrow> pathCmd list \<Rightarrow> string" where
  "pathText num cmds = join '' '' (map (cmdText num) cmds)"

definition curveCmd :: "point list \<Rightarrow> nat \<Rightarrow> pathCmd" where
  "curveCmd points i = (case bezierSegment points i of (c1, c2, p) \<Rightarrow> CurveTo c1 c2 p)"

definition pathCmds :: "point list \<Rightarrow> pathCmd list" where
  "pathCmds points =
     (let n = length points in
      if n < 3
      then map (\<lambda>(i, p). if i = 0 then MoveTo p else LineTo p) (zip [0..<n] points) @ [ClosePath]
      else MoveTo (points ! 0) # map (curveCmd points) [0..<n] @ [ClosePath])"

text \<open>
  The pen: \<open>(start of the current subpath, current point)\<close>, \<open>None\<close> before the first
  \<^verbatim>\<open>M\<close>. A drawing command before any \<^verbatim>\<open>M\<close> leaves the pen undefined.
\<close>

fun penStep :: "(point \<times> point) option \<Rightarrow> pathCmd \<Rightarrow> (point \<times> point) option" where
  "penStep _ (MoveTo p) = Some (p, p)"
| "penStep (Some (s, _)) (LineTo p) = Some (s, p)"
| "penStep (Some (s, _)) (CurveTo _ _ p) = Some (s, p)"
| "penStep (Some (s, _)) ClosePath = Some (s, s)"
| "penStep None _ = None"

definition penAfter :: "pathCmd list \<Rightarrow> (point \<times> point) option" where
  "penAfter cmds = foldl penStep None cmds"

section \<open>Seed shapes\<close>

datatype shapeType = Rect | Ellipse | Triangle

text \<open>
  The loop of the ellipse branch of \<^verbatim>\<open>onDrawUp\<close> (main.ts, 447-453), from index \<open>i\<close>
  with the array \<open>points\<close> built so far.
\<close>

function ellipseLoop ::
  "real \<Rightarrow> real \<Rightarrow> real \<Rightarrow> real \<Rightarrow> nat \<Rightarrow> nat \<Rightarrow> point list \<Rightarrow> point list" where
  "ellipseLoop cx cy rx ry segments i points =
     (if i < segments
      then
        let angle = (2 * pi * real i) / real segments
        in ellipseLoop cx cy rx ry segments (Suc i)
             (points @ [(cx + rx * cos angle, cy + ry * sin angle)])
      else points)"
  by pat_completeness auto
termination
  by (relation "measure (\<lambda>(cx, cy, rx, ry, segments, i, points). segments - i)") auto

text \<open>
  The part of \<^verbatim>\<open>onDrawUp\<close> that turns the two corners of the drag, \<open>(drawStartX,
  drawStartY)\<close> and \<open>(curX, curY)\<close>, into the vertex list of the new hotspot (main.ts,
  419-424 and 433-461).
\<close>

definition seedPoints :: "shapeType \<Rightarrow> real \<Rightarrow> real \<Rightarrow> real \<Rightarrow> real \<Rightarrow> point list" where
  "seedPoints shape drawStartX drawStartY curX curY =
     (let minX = min drawStartX curX;
          minY = min drawStartY curY;
          maxX = max drawStartX curX;
          maxY = max drawStartY curY;
          w = maxX - minX;
          h = maxY - minY
      in case shape of
           Rect \<Rightarrow> [(minX, minY), (maxX, minY), (maxX, maxY), (minX, maxY)]
         | Ellipse \<Rightarrow>
             (let cx = minX + w / 2;
                  cy = minY + h / 2;
                  rx = w / 2;
                  ry = h / 2;
                  segments = 8
              in ellipseLoop cx cy rx ry segments 0 [])
         | Triangle \<Rightarrow> [(minX + w / 2, minY), (minX, maxY), (maxX, maxY)])"

section \<open>Data model\<close>

text \<open>
  The interfaces \<^verbatim>\<open>Hotspot\<close>, \<^verbatim>\<open>Profile\<close> and \<^verbatim>\<open>LoomViewSettings\<close> (main.ts, 15-48).
  An optional field \<^verbatim>\<open>f?: T\<close> is a \<open>T option\<close>, \<open>None\<close> for \<^verbatim>\<open>undefined\<close>. Field
  names carry a prefix (\<open>h_\<close> for a hotspot, \<open>p_\<close> for a profile), since \<open>id\<close>, \<open>top\<close>
  and the like are constants of HOL.
\<close>

record hotspot =
  h_id :: string
  h_name :: string
  h_path :: string
  h_top :: "string option"
  h_left :: "string option"
  h_width :: "string option"
  h_height :: "string option"
  h_points :: "point list option"
  h_shapeType :: "shapeType option"

record profile =
  p_id :: string
  p_name :: string
  p_imagePath :: string
  p_hotspots :: "hotspot list"

datatype labelType = LabelName | LabelPath | LabelBoth

record loomViewSettings =
  displayLabelType :: labelType
  roomImagePath :: "string option"
  hotspots :: "hotspot list option"
  profiles :: "profile list"
  activeProfileId :: string

definition DEFAULT_SETTINGS :: loomViewSettings where
  "DEFAULT_SETTINGS =
     \<lparr>displayLabelType = LabelPath, roomImagePath = None, hotspots = None,
      profiles = [], activeProfileId = ''''\<rparr>"

text \<open>
  JavaScript truthiness of a value of type \<^verbatim>\<open>string | null | undefined\<close>: \<^verbatim>\<open>null\<close>,
  \<^verbatim>\<open>undefined\<close> and the empty string are falsy.
\<close>

definition truthy :: "string option \<Rightarrow> bool" where
  "truthy v = (case v of None \<Rightarrow> False | Some s \<Rightarrow> s \<noteq> [])"

section \<open>The view and its effects\<close>

text \<open>
  The fields of the class \<^verbatim>\<open>LoomView\<close> that the editor reads and writes (main.ts,
  98-108), with \<open>settings\<close> for \<^verbatim>\<open>this.plugin.settings\<close>. The two effects of the
  handlers are kept as logs: \<open>saved\<close> holds the stores handed to \<^verbatim>\<open>saveData\<close>, oldest
  first, and \<open>notices\<close> the texts shown with \<^verbatim>\<open>new Notice\<close>. \<open>keydownListeners\<close> counts
  the copies of \<^verbatim>\<open>edgeEditKeyHandler\<close> that are registered on \<^verbatim>\<open>document\<close>: what
  \<^verbatim>\<open>renderRoom\<close> leaves behind outside the page it rebuilds.
\<close>

record view =
  settings :: loomViewSettings
  isEditMode :: bool
  selectedHotspotId :: "string option"
  drawingShapeType :: "shapeType option"
  editingEdgesHotspotId :: "string option"
  undoStack :: "point list list"
  saved :: "loomViewSettings list"
  notices :: "string list"
  keydownListeners :: nat

definition saveSettings :: "view \<Rightarrow> view" where
  "saveSettings st = st\<lparr>saved := saved st @ [settings st]\<rparr>"

definition notice :: "string \<Rightarrow> view \<Rightarrow> view" where
  "notice msg st = st\<lparr>notices := notices st @ [msg]\<rparr>"

text \<open>
  \<^verbatim>\<open>getCurrentProfile\<close> (main.ts, 139-146). \<open>currentProfile\<close> is its last line, the
  lookup alone.
\<close>

definition currentProfile :: "view \<Rightarrow> profile option" where
  "currentProfile st =
     find (\<lambda>p. p_id p = activeProfileId (settings st)) (profiles (settings st))"

definition getCurrentProfile :: "view \<Rightarrow> profile option \<times> view" where
  "getCurrentProfile st =
     (let st1 =
        (if activeProfileId (settings st) = [] \<and> 0 < length (profiles (settings st))
         then saveSettings
                (st\<lparr>settings := (settings st)
                     \<lparr>activeProfileId := p_id (profiles (settings st) ! 0)\<rparr>\<rparr>)
         else st)
      in (currentProfile st1, st1))"

text \<open>
  What \<^verbatim>\<open>renderRoom\<close> (main.ts, 148-839) does to the view. It empties the container and
  builds the page again from the fields, which changes none of them. It calls
  \<open>getCurrentProfile\<close> and returns when there is no profile. In edit mode with a hotspot
  in edge editing it adds a new copy of \<^verbatim>\<open>edgeEditKeyHandler\<close> as a \<^verbatim>\<open>keydown\<close> listener on
  \<^verbatim>\<open>document\<close> (main.ts, 489-522). The removal of the listener is handed to
  \<^verbatim>\<open>this.register\<close>, which runs it when the view is unloaded: while the view is open no
  listener is removed, and each render in edge editing adds one.
\<close>

definition registerKeyHandler :: "view \<Rightarrow> view" where
  "registerKeyHandler st =
     (if isEditMode st \<and> truthy (editingEdgesHotspotId st)
      then st\<lparr>keydownListeners := Suc (keydownListeners st)\<rparr>
      else st)"

definition renderRoom :: "view \<Rightarrow> view" where
  "renderRoom st =
     (case getCurrentProfile st of
        (None, st1) \<Rightarrow> st1
      | (Some p, st1) \<Rightarrow> registerKeyHandler st1)"

text \<open>
  The handlers below are closures made by \<^verbatim>\<open>renderRoom\<close>; they hold the object
  \<^verbatim>\<open>currentProfile\<close> that \<open>getCurrentProfile\<close> returned, and some hold one \<^verbatim>\<open>hotspot\<close> of
  its list. In the model the held profile is the first profile of the store with the
  active id, and a held hotspot is named by its index in that profile's list. A write to
  \<^verbatim>\<open>currentProfile.hotspots\<close> is \<open>modifyHotspots\<close>. With no current profile \<^verbatim>\<open>renderRoom\<close>
  returns before it makes any handler, so the handlers then leave the view as it is.
\<close>

fun updFirst :: "('a \<Rightarrow> bool) \<Rightarrow> ('a \<Rightarrow> 'a) \<Rightarrow> 'a list \<Rightarrow> 'a list" where
  "updFirst P f [] = []"
| "updFirst P f (x # xs) = (if P x then f x # xs else x # updFirst P f xs)"

definition currentHotspots :: "view \<Rightarrow> hotspot list" where
  "currentHotspots st = (case currentProfile st of None \<Rightarrow> [] | Some p \<Rightarrow> p_hotspots p)"

definition modifyHotspots :: "(hotspot list \<Rightarrow> hotspot list) \<Rightarrow> view \<Rightarrow> view" where
  "modifyHotspots f st =
     st\<lparr>settings := (settings st)
          \<lparr>profiles :=
             updFirst (\<lambda>p. p_id p = activeProfileId (settings st))
               (\<lambda>p. p\<lparr>p_hotspots := f (p_hotspots p)\<rparr>) (profiles (settings st))\<rparr>\<rparr>"

text \<open>A write to the field \<^verbatim>\<open>points\<close> of the held hotspot with index \<open>hi\<close>.\<close>

definition setPoints :: "nat \<Rightarrow> point list \<Rightarrow> view \<Rightarrow> view" where
  "setPoints hi ps st =
     modifyHotspots (\<lambda>hs. if hi < length hs then hs[hi := (hs ! hi)\<lparr>h_points := Some ps\<rparr>] else hs) st"

text \<open>\<^verbatim>\<open>Array.prototype.findIndex\<close>, with \<open>None\<close> for the result -1.\<close>

fun findIndex :: "('a \<Rightarrow> bool) \<Rightarrow> 'a list \<Rightarrow> nat option" where
  "findIndex P [] = None"
| "findIndex P (x # xs) =
     (if P x then Some 0 else (case findIndex P xs of None \<Rightarrow> None | Some i \<Rightarrow> Some (Suc i)))"

text \<open>\<^verbatim>\<open>hotspots.splice(idx, 1)\<close> for an index in range.\<close>

definition splice1 :: "nat \<Rightarrow> 'a list \<Rightarrow> 'a list" where
  "splice1 idx xs = take idx xs @ drop (Suc idx) xs"

section \<open>Pointer positions\<close>

text \<open>
  A mouse event and the box returned by \<^verbatim>\<open>img.getBoundingClientRect()\<close>; \<^verbatim>\<open>right\<close> and
  \<^verbatim>\<open>bottom\<close> of a \<^verbatim>\<open>DOMRect\<close> of non-negative size are \<open>left + width\<close> and \<open>top + height\<close>.
  The handlers divide by the width and the height of the box: the model follows the code
  for a box of positive size (for an empty box JavaScript yields NaN or an infinity,
  which a real number cannot show).
\<close>

record mouseEvent =
  button :: int
  clientX :: real
  clientY :: real

record domRect =
  r_left :: real
  r_top :: real
  r_width :: real
  r_height :: real

definition r_right :: "domRect \<Rightarrow> real" where
  "r_right r = r_left r + r_width r"

definition r_bottom :: "domRect \<Rightarrow> real" where
  "r_bottom r = r_top r + r_height r"

text \<open>\<^verbatim>\<open>((e.clientX - imgRect.left) / imgRect.width) * 100\<close> and its twin for y.\<close>

definition percentX :: "domRect \<Rightarrow> mouseEvent \<Rightarrow> real" where
  "percentX r e = ((clientX e - r_left r) / r_width r) * 100"

definition percentY :: "domRect \<Rightarrow> mouseEvent \<Rightarrow> real" where
  "percentY r e = ((clientY e - r_top r) / r_height r) * 100"

text \<open>\<^verbatim>\<open>Math.max(0, Math.min(100, v))\<close>.\<close>

definition clamp100 :: "real \<Rightarrow> real" where
  "clamp100 v = max 0 (min 100 v)"

section \<open>Edit mode toggle\<close>

text \<open>\<^verbatim>\<open>editModeBtn.onclick\<close> (main.ts, 165-175).\<close>

definition editModeBtn_onclick :: "view \<Rightarrow> view" where
  "editModeBtn_onclick st =
     (let st1 = (if isEditMode st then notice ''Layout saved!'' (saveSettings st) else st);
          st2 = st1\<lparr>isEditMode := \<not> isEditMode st1\<rparr>;
          st3 = st2\<lparr>selectedHotspotId := None\<rparr>;
          st4 = st3\<lparr>drawingShapeType := None\<rparr>
      in renderRoom st4)"

section \<open>Drawing a new shape\<close>

text \<open>
  The variables of the drawing block of \<^verbatim>\<open>renderRoom\<close> that its three handlers share
  (main.ts, 311-313); of \<^verbatim>\<open>previewShape\<close> only whether it is an element or \<^verbatim>\<open>null\<close> is
  kept, its attributes are drawing only.
\<close>

record drawGesture =
  drawStartX :: real
  drawStartY :: real
  previewShape :: bool
  isDragging :: bool

definition drawGesture0 :: drawGesture where
  "drawGesture0 = \<lparr>drawStartX = 0, drawStartY = 0, previewShape = False, isDragging = False\<rparr>"

text \<open>
  \<^verbatim>\<open>imageContainer.onmousedown\<close> (main.ts, 330-371). The tool is one of the three shapes,
  so a preview element is always made.
\<close>

definition imageContainer_onmousedown :: "mouseEvent \<Rightarrow> domRect \<Rightarrow> drawGesture \<Rightarrow> drawGesture" where
  "imageContainer_onmousedown e imgRect g =
     (if button e \<noteq> 0 then g
      else if clientX e < r_left imgRect \<or> clientX e > r_right imgRect \<or>
              clientY e < r_top imgRect \<or> clientY e > r_bottom imgRect then g
      else g\<lparr>isDragging := True,
               drawStartX := percentX imgRect e,
               drawStartY := percentY imgRect e,
               previewShape := True\<rparr>)"

text \<open>
  \<^verbatim>\<open>onDrawUp\<close> (main.ts, 410-480). \<open>shape\<close> is the tool held by the closure, \<open>newId\<close>
  the text of \<^verbatim>\<open>Date.now()\<close>. The vertex list is \<open>seedPoints\<close>, which repeats the
  normalisation of the corners. After it has created a hotspot the handler ends with a
  call of \<^verbatim>\<open>renderRoom\<close> (main.ts, 481); that call is kept apart, as \<open>renderRoom\<close>
  applied to the view that \<open>onDrawUp\<close> returns, so that \<open>onDrawUp\<close> is the gesture up to
  the saved store.
\<close>

definition newHotspot :: "string \<Rightarrow> point list \<Rightarrow> shapeType \<Rightarrow> hotspot" where
  "newHotspot newId points shape =
     \<lparr>h_id = newId, h_name = '''', h_path = '''', h_top = None, h_left = None,
      h_width = None, h_height = None, h_points = Some points, h_shapeType = Some shape\<rparr>"

definition onDrawUp ::
  "shapeType \<Rightarrow> string \<Rightarrow> mouseEvent \<Rightarrow> domRect \<Rightarrow> drawGesture \<times> view \<Rightarrow> drawGesture \<times> view" where
  "onDrawUp shape newId e imgRect gs =
     (case gs of (g, st) \<Rightarrow>
        if \<not> isDragging g \<or> \<not> previewShape g \<or> currentProfile st = None then (g, st)
        else
          let g1 = g\<lparr>isDragging := False\<rparr>;
              curX = clamp100 (percentX imgRect e);
              curY = clamp100 (percentY imgRect e);
              minX = min (drawStartX g1) curX;
              minY = min (drawStartY g1) curY;
              maxX = max (drawStartX g1) curX;
              maxY = max (drawStartY g1) curY;
              w = maxX - minX;
              h = maxY - minY
          in if w < 2 \<and> h < 2 then (g1\<lparr>previewShape := False\<rparr>, st)
             else
               let points = seedPoints shape (drawStartX g1) (drawStartY g1) curX curY;
                   st1 = modifyHotspots (\<lambda>hs. hs @ [newHotspot newId points shape]) st;
                   st2 = st1\<lparr>selectedHotspotId := Some newId\<rparr>;
                   st3 = st2\<lparr>editingEdgesHotspotId := Some newId\<rparr>;
                   st4 = st3\<lparr>drawingShapeType := None\<rparr>;
                   st5 = st4\<lparr>undoStack := [points]\<rparr>
               in (g1, saveSettings st5))"

section \<open>Edge editing\<close>


text \<open>
  One run of \<^verbatim>\<open>edgeEditKeyHandler\<close> (main.ts, 490-518). The hotspot it works on is the
  first one of the current profile whose id is \<^verbatim>\<open>editingEdgesHotspotId\<close>, found again at
  each run.
\<close>

record keyboardEvent =
  key :: string
  ctrlKey :: bool
  metaKey :: bool

definition edgeEditKeyHandler :: "keyboardEvent \<Rightarrow> view \<Rightarrow> view" where
  "edgeEditKeyHandler e st =
     (if \<not> truthy (editingEdgesHotspotId st) then st
      else
        let isEdited = (\<lambda>h. Some (h_id h) = editingEdgesHotspotId st) in
        case findIndex isEdited (currentHotspots st) of
          None \<Rightarrow> st
        | Some hi \<Rightarrow>
            (case h_points (currentHotspots st ! hi) of
               None \<Rightarrow> st
             | Some _ \<Rightarrow>
                 if key e = ''z'' \<and> (ctrlKey e \<or> metaKey e) then
                   (if length (undoStack st) > 1 then
                      let st1 = st\<lparr>undoStack := butlast (undoStack st)\<rparr>;
                          prev = undoStack st1 ! (length (undoStack st1) - 1);
                          st2 = setPoints hi prev st1
                      in notice ''Undo!'' (renderRoom st2)
                    else notice ''Nothing to undo'' st)
                 else if key e = ''Escape'' then
                   let st1 = modifyHotspots
                               (\<lambda>hs. case findIndex isEdited hs of
                                        Some idx \<Rightarrow> splice1 idx hs | None \<Rightarrow> hs) st;
                       st2 = st1\<lparr>editingEdgesHotspotId := None\<rparr>;
                       st3 = st2\<lparr>selectedHotspotId := None\<rparr>;
                       st4 = st3\<lparr>undoStack := []\<rparr>
                   in notice ''Shape deleted'' (renderRoom (saveSettings st4))
                 else st))"

text \<open>
  A key press. Every registered listener is a copy of \<^verbatim>\<open>edgeEditKeyHandler\<close>, made by
  one render; the copies hold the same profile as long as the active profile stays the
  same, which it does under every handler here. The browser runs the listeners that are
  registered when the event is dispatched, one after the other; a listener added during
  the dispatch, by a render inside a handler, is not run for that event.
\<close>

fun runKeyHandlers :: "nat \<Rightarrow> keyboardEvent \<Rightarrow> view \<Rightarrow> view" where
  "runKeyHandlers 0 e st = st"
| "runKeyHandlers (Suc n) e st = runKeyHandlers n e (edgeEditKeyHandler e st)"

definition document_keydown :: "keyboardEvent \<Rightarrow> view \<Rightarrow> view" where
  "document_keydown e st = runKeyHandlers (keydownListeners st) e st"

text \<open>
  The handlers of a vertex handle (main.ts, 628-669), for vertex \<open>idx\<close> of the hotspot
  with index \<open>hi\<close>. The handle exists only for a hotspot that has a vertex list, and one
  handle is made for each vertex, so \<open>idx\<close> is in range; an assignment past the end of a
  JavaScript array would leave holes, which a list cannot show.
\<close>

definition handle_onmousedown :: "nat \<Rightarrow> view \<Rightarrow> view" where
  "handle_onmousedown hi st =
     (if hi < length (currentHotspots st) then
        (case h_points (currentHotspots st ! hi) of
           Some ps \<Rightarrow> st\<lparr>undoStack := undoStack st @ [ps]\<rparr>
         | None \<Rightarrow> st)
      else st)"

definition onHandleMove :: "nat \<Rightarrow> nat \<Rightarrow> mouseEvent \<Rightarrow> domRect \<Rightarrow> view \<Rightarrow> view" where
  "onHandleMove hi idx evt rect st =
     (let newX = clamp100 (percentX rect evt);
          newY = clamp100 (percentY rect evt)
      in if hi < length (currentHotspots st) then
           (case h_points (currentHotspots st ! hi) of
              Some ps \<Rightarrow> setPoints hi (ps[idx := (newX, newY)]) st
            | None \<Rightarrow> st)
         else st)"

definition onHandleUp :: "view \<Rightarrow> view" where
  "onHandleUp st = saveSettings st"

text \<open>
  Dragging the whole shape (main.ts, 717-747). \<^verbatim>\<open>shape.onmousedown\<close> saves a snapshot and
  keeps the pointer position, the image box and a copy of the vertices for the moves
  that follow.
\<close>

record shapeDrag =
  startX :: real
  startY :: real
  dragRect :: domRect
  origPts :: "point list"

definition shape_onmousedown ::
  "nat \<Rightarrow> mouseEvent \<Rightarrow> domRect \<Rightarrow> view \<Rightarrow> shapeDrag option \<times> view" where
  "shape_onmousedown hi e imgRect st =
     (if hi < length (currentHotspots st) then
        (case h_points (currentHotspots st ! hi) of
           Some ps \<Rightarrow>
             (Some \<lparr>startX = clientX e, startY = clientY e, dragRect = imgRect, origPts = ps\<rparr>,
              st\<lparr>undoStack := undoStack st @ [ps]\<rparr>)
         | None \<Rightarrow> (None, st))
      else (None, st))"

definition onMove :: "nat \<Rightarrow> shapeDrag \<Rightarrow> mouseEvent \<Rightarrow> view \<Rightarrow> view" where
  "onMove hi d evt st =
     (let dx = ((clientX evt - startX d) / r_width (dragRect d)) * 100;
          dy = ((clientY evt - startY d) / r_height (dragRect d)) * 100
      in setPoints hi (map (\<lambda>p. (fst p + dx, snd p + dy)) (origPts d)) st)"

definition onUp :: "view \<Rightarrow> view" where
  "onUp st = renderRoom (saveSettings st)"

text \<open>
  A drag gesture is a press, the moves while the button is held, and the release. For a
  vertex drag the press is on the handle of vertex \<open>idx\<close>, for a shape drag on the shape.
\<close>

datatype gesture =
    VertexDrag nat "mouseEvent list"
  | ShapeDrag mouseEvent "mouseEvent list"

fun runGesture :: "nat \<Rightarrow> domRect \<Rightarrow> view \<Rightarrow> gesture \<Rightarrow> view" where
  "runGesture hi rect st (VertexDrag idx moves) =
     onHandleUp (foldl (\<lambda>s evt. onHandleMove hi idx evt rect s) (handle_onmousedown hi st) moves)"
| "runGesture hi rect st (ShapeDrag e moves) =
     (case shape_onmousedown hi e rect st of
        (Some d, st1) \<Rightarrow> onUp (foldl (\<lambda>s evt. onMove hi d evt s) st1 moves)
      | (None, st1) \<Rightarrow> st1)"

section \<open>Rendering the hotspots\<close>

text \<open>
  What the loop over \<^verbatim>\<open>currentProfile.hotspots\<close> in \<^verbatim>\<open>renderRoom\<close> makes of one hotspot
  (main.ts, 524-838): the SVG element, and the handlers it receives. \<^verbatim>\<open>parseFloat\<close> is a
  JavaScript builtin and a parameter of the model, as \<open>num\<close> is.
\<close>

datatype svgShape =
    SvgPath string
  | SvgPolygon string
  | SvgRect real real real real

text \<open>\<^verbatim>\<open>v || d\<close> for an optional string \<open>v\<close>.\<close>

definition orElse :: "string option \<Rightarrow> string \<Rightarrow> string" where
  "orElse v d = (case v of None \<Rightarrow> d | Some s \<Rightarrow> if s = [] then d else s)"

definition renderShape :: "(real \<Rightarrow> string) \<Rightarrow> (string \<Rightarrow> real) \<Rightarrow> hotspot \<Rightarrow> svgShape option" where
  "renderShape num parseFloat hotspot =
     (let isEllipse = (h_shapeType hotspot = Some Ellipse) in
      case (case h_points hotspot of None \<Rightarrow> None | Some ps \<Rightarrow> if length ps > 0 then Some ps else None) of
        Some ps \<Rightarrow>
          if isEllipse then Some (SvgPath (smoothClosedPath num ps))
          else Some (SvgPolygon (join '' '' (map (coords num) ps)))
      | None \<Rightarrow>
          if truthy (h_top hotspot) then
            let y = parseFloat (orElse (h_top hotspot) []);
                x = parseFloat (orElse (h_left hotspot) ''0'');
                w = parseFloat (orElse (h_width hotspot) ''10'');
                h = parseFloat (orElse (h_height hotspot) ''10'')
            in Some (SvgRect x y w h)
          else None)"

text \<open>
  The three branches that give a rendered shape its handlers (main.ts, 552, 613, 750,
  819): the edge editing branch makes one draggable handle for each vertex, the confirm
  and cancel buttons, and the drag of the whole shape; the edit mode branch opens the
  context menu on a click; the view branch navigates on a click.
\<close>

datatype interaction =
    EdgeEditing nat
  | EditMenu
  | Navigate

definition hotspotInteraction :: "view \<Rightarrow> hotspot \<Rightarrow> interaction" where
  "hotspotInteraction st hotspot =
     (let isEdgeEditing = (editingEdgesHotspotId st = Some (h_id hotspot)) in
      case (if isEdgeEditing then h_points hotspot else None) of
        Some ps \<Rightarrow> EdgeEditing (length ps)
      | None \<Rightarrow> if isEditMode st then EditMenu else Navigate)"

definition renderHotspot ::
  "(real \<Rightarrow> string) \<Rightarrow> (string \<Rightarrow> real) \<Rightarrow> view \<Rightarrow> hotspot \<Rightarrow> (svgShape \<times> interaction) option" where
  "renderHotspot num parseFloat st hotspot =
     (case renderShape num parseFloat hotspot of
        None \<Rightarrow> None
      | Some shape \<Rightarrow> Some (shape, hotspotInteraction st hotspot))"

definition renderHotspots ::
  "(real \<Rightarrow> string) \<Rightarrow> (string \<Rightarrow> real) \<Rightarrow> view \<Rightarrow> (svgShape \<times> interaction) option list" where
  "renderHotspots num parseFloat st = map (renderHotspot num parseFloat st) (currentHotspots st)"

section \<open>Loading the store\<close>

text \<open>
  The value of \<^verbatim>\<open>loadData()\<close>: \<^verbatim>\<open>null\<close> when nothing was saved, else an object that may
  lack any of the fields of the settings.
\<close>

record persistedData =
  d_displayLabelType :: "labelType option"
  d_roomImagePath :: "string option"
  d_hotspots :: "hotspot list option"
  d_profiles :: "profile list option"
  d_activeProfileId :: "string option"

text \<open>
  \<^verbatim>\<open>loadSettings\<close> (main.ts, 1378-1380): \<^verbatim>\<open>Object.assign({}, DEFAULT_SETTINGS, data)\<close>
  takes each field from the data when the data has it, and from the defaults otherwise.
\<close>

definition loadSettings :: "persistedData option \<Rightarrow> loomViewSettings" where
  "loadSettings data =
     (case data of
        None \<Rightarrow> DEFAULT_SETTINGS
      | Some d \<Rightarrow>
          \<lparr>displayLabelType =
             (case d_displayLabelType d of Some v \<Rightarrow> v | None \<Rightarrow> displayLabelType DEFAULT_SETTINGS),
           roomImagePath =
             (case d_roomImagePath d of Some v \<Rightarrow> Some v | None \<Rightarrow> roomImagePath DEFAULT_SETTINGS),
           hotspots =
             (case d_hotspots d of Some v \<Rightarrow> Some v | None \<Rightarrow> hotspots DEFAULT_SETTINGS),
           profiles =
             (case d_profiles d of Some v \<Rightarrow> v | None \<Rightarrow> profiles DEFAULT_SETTINGS),
           activeProfileId =
             (case d_activeProfileId d of Some v \<Rightarrow> v | None \<Rightarrow> activeProfileId DEFAULT_SETTINGS)\<rparr>)"

text \<open>
  The start of \<^verbatim>\<open>onload\<close> (main.ts, 1331-1352): load, then wrap the fields of the old
  format into a default profile when there is no profile. The result is the settings and
  the stores handed to \<^verbatim>\<open>saveData\<close>.
\<close>

definition onload :: "persistedData option \<Rightarrow> loomViewSettings \<times> loomViewSettings list" where
  "onload data =
     (let s = loadSettings data in
      if length (profiles s) = 0 then
        let oldHotspots = (case hotspots s of Some hs \<Rightarrow> hs | None \<Rightarrow> []);
            oldImage = orElse (roomImagePath s) ''room-bg.png'';
            defaultProfile =
              \<lparr>p_id = ''default'', p_name = ''Default Room'',
               p_imagePath = oldImage, p_hotspots = oldHotspots\<rparr>;
            s1 = s\<lparr>profiles := profiles s @ [defaultProfile]\<rparr>;
            s2 = s1\<lparr>activeProfileId := ''default''\<rparr>
        in (s2, [s2])
      else (s, []))"

section \<open>Navigation\<close>

text \<open>
  The vault is \<^verbatim>\<open>this.app.vault.getAbstractFileByPath\<close>: a path names a file, a folder
  or nothing (\<^verbatim>\<open>null\<close>). A string is a list of 8-bit characters, read as the code units
  below 256 of a JavaScript string. Of the white space that \<^verbatim>\<open>String.prototype.trim\<close>
  removes, these are the tab, the line feed, the vertical tab, the form feed, the
  carriage return, the space and the no-break space U+00A0; the others lie beyond 255.
\<close>

datatype abstractFile = TFile string | TFolder string

type_synonym vault = "string \<Rightarrow> abstractFile option"

definition isSpace :: "char \<Rightarrow> bool" where
  "isSpace c = (c \<in> set [CHR 0x09, CHR 0x0A, CHR 0x0B, CHR 0x0C, CHR 0x0D, CHR '' '', CHR 0xA0])"

definition trim :: "string \<Rightarrow> string" where
  "trim s = rev (dropWhile isSpace (rev (dropWhile isSpace s)))"

text \<open>\<^verbatim>\<open>s.split(c)\<close> for a separator of one character.\<close>

fun splitOn :: "char \<Rightarrow> string \<Rightarrow> string list" where
  "splitOn c [] = [[]]"
| "splitOn c (x # xs) =
     (if x = c then [] # splitOn c xs
      else (case splitOn c xs of p # ps \<Rightarrow> (x # p) # ps | [] \<Rightarrow> [[x]]))"

definition endsWith :: "string \<Rightarrow> string \<Rightarrow> bool" where
  "endsWith s suf = (length suf \<le> length s \<and> drop (length s - length suf) s = suf)"

text \<open>
  \<^verbatim>\<open>showZoneFiles\<close> (main.ts, 885-975), up to the point where the listing of a folder
  starts. The result is the list of the paths looked up in the vault, in order, and what
  the function did: the notice for a hotspot without destination, the file opened in a
  new tab (with the fragment handed to the view), the message that the path was not
  found, or the listing of a folder.
\<close>

datatype zoneResult =
    NoLinkedFolder
  | OpenedFile string string
  | PathNotFound string
  | FolderListed string

definition showZoneFiles :: "vault \<Rightarrow> hotspot \<Rightarrow> string option \<Rightarrow> string list \<times> zoneResult" where
  "showZoneFiles vault hotspot currentPath =
     (let path0 = orElse currentPath (h_path hotspot) in
      if path0 = [] \<or> trim path0 = [] then ([], NoLinkedFolder)
      else
        let hasHash = (CHR ''#'' \<in> set path0);
            parts = splitOn (CHR ''#'') path0;
            path = (if hasHash then parts ! 0 else path0);
            linkSubpath = (if hasHash then ''#'' @ parts ! 1 else []);
            abstractFile = vault path;
            retry = (abstractFile = None \<and> \<not> endsWith path ''.md'');
            tryFile = vault (path @ ''.md'');
            abstractFile = (if retry \<and> tryFile \<noteq> None then tryFile else abstractFile);
            lookups = (if retry then [path, path @ ''.md''] else [path])
        in case abstractFile of
             Some (TFile f) \<Rightarrow> (lookups, OpenedFile f linkSubpath)
           | _ \<Rightarrow>
               (lookups @ [path],
                case vault path of
                  Some (TFolder d) \<Rightarrow> FolderListed d
                | _ \<Rightarrow> PathNotFound path))"

section \<open>Predicates used in the statements\<close>

text \<open>
  The active id is set, as \<open>getCurrentProfile\<close> leaves it, and the hotspot with index
  \<open>hi\<close> of the current profile exists and has a vertex list: the condition under which
  \<^verbatim>\<open>renderRoom\<close> makes the handles and the shape drag for it.
\<close>

definition editable :: "nat \<Rightarrow> view \<Rightarrow> bool" where
  "editable hi st =
     (activeProfileId (settings st) \<noteq> [] \<and> hi < length (currentHotspots st) \<and>
      h_points (currentHotspots st ! hi) \<noteq> None)"

text \<open>Every coordinate of every vertex lies in the closed range from 0 to 100.\<close>

definition inRange :: "point list \<Rightarrow> bool" where
  "inRange ps = list_all (\<lambda>p. 0 \<le> fst p \<and> fst p \<le> 100 \<and> 0 \<le> snd p \<and> snd p \<le> 100) ps"

section \<open>Scenarios\<close>

text \<open>
  Concrete stores, views and events, on which the handlers are run: one profile
  \<^verbatim>\<open>Room A\<close> with the image \<^verbatim>\<open>bg.png\<close>, an image box of 100 by 100 pixels at the origin
  (so that pixels and percent coincide), and the rectangle drawn from (10,10) to (40,40).
\<close>

definition roomProfile :: "hotspot list \<Rightarrow> profile" where
  "roomProfile hs = \<lparr>p_id = ''room'', p_name = ''Room A'', p_imagePath = ''bg.png'', p_hotspots = hs\<rparr>"

definition roomStore :: "hotspot list \<Rightarrow> loomViewSettings" where
  "roomStore hs =
     \<lparr>displayLabelType = LabelPath, roomImagePath = None, hotspots = None,
      profiles = [roomProfile hs], activeProfileId = ''room''\<rparr>"

definition square :: "point list" where
  "square = [(10, 10), (40, 10), (40, 40), (10, 40)]"

definition box100 :: domRect where
  "box100 = \<lparr>r_left = 0, r_top = 0, r_width = 100, r_height = 100\<rparr>"

definition mouseAt :: "real \<Rightarrow> real \<Rightarrow> mouseEvent" where
  "mouseAt x y = \<lparr>button = 0, clientX = x, clientY = y\<rparr>"

definition drawingView :: view where
  "drawingView =
     \<lparr>settings = roomStore [], isEditMode = True, selectedHotspotId = None,
      drawingShapeType = Some Rect, editingEdgesHotspotId = None, undoStack = [],
      saved = [], notices = [], keydownListeners = 0\<rparr>"

definition editingView :: "point list \<Rightarrow> point list list \<Rightarrow> view" where
  "editingView ps stack =
     \<lparr>settings = roomStore [newHotspot ''1'' ps Rect], isEditMode = True,
      selectedHotspotId = Some ''1'', drawingShapeType = None,
      editingEdgesHotspotId = Some ''1'', undoStack = stack,
      saved = [roomStore [newHotspot ''1'' square Rect]], notices = [],
      keydownListeners = 1\<rparr>"

definition ctrlZ :: keyboardEvent where
  "ctrlZ = \<lparr>key = ''z'', ctrlKey = True, metaKey = False\<rparr>"

text \<open>A hotspot of the old format: a rectangle given by its four fields, without vertices.\<close>

definition legacyHotspot :: hotspot where
  "legacyHotspot =
     \<lparr>h_id = ''old'', h_name = ''Desk'', h_path = ''notes/desk'', h_top = Some ''10'',
      h_left = Some ''10'', h_width = Some ''30'', h_height = Some ''30'',
      h_points = None, h_shapeType = None\<rparr>"

definition legacyView :: view where
  "legacyView =
     \<lparr>settings = roomStore [legacyHotspot], isEditMode = True, selectedHotspotId = None,
      drawingShapeType = None, editingEdgesHotspotId = None, undoStack = [],
      saved = [], notices = [], keydownListeners = 0\<rparr>"

text \<open>
  A persisted hotspot with neither a vertex list nor the fields of a rectangle, the store
  that holds it, and two vaults for the navigation: one with the note \<^verbatim>\<open>notes/desk.md\<close>,
  one empty.
\<close>

definition corruptHotspot :: hotspot where
  "corruptHotspot =
     \<lparr>h_id = ''bad'', h_name = ''Ghost'', h_path = ''notes/ghost'', h_top = None,
      h_left = None, h_width = None, h_height = None, h_points = None, h_shapeType = None\<rparr>"

definition corruptData :: persistedData where
  "corruptData =
     \<lparr>d_displayLabelType = None, d_roomImagePath = None, d_hotspots = None,
      d_profiles = Some [roomProfile [corruptHotspot]], d_activeProfileId = Some ''room''\<rparr>"

definition deskVault :: vault where
  "deskVault p = (if p = ''notes/desk.md'' then Some (TFile ''notes/desk.md'') else None)"

definition emptyVault :: vault where
  "emptyVault p = None"

definition deskHotspot :: hotspot where
  "deskHotspot =
     \<lparr>h_id = ''1'', h_name = ''Desk'', h_path = ''notes/desk#Plan'', h_top = None,
      h_left = None, h_width = None, h_height = None, h_points = Some square,
      h_shapeType = Some Rect\<rparr>"

text \<open>The same hotspot with a destination that is a single space.\<close>

definition blankHotspot :: hotspot where
  "blankHotspot = deskHotspot\<lparr>h_path := '' ''\<rparr>"

section \<open>Properties of the geometry kernel\<close>

lemma foldl_add_sum_list:
  "foldl (\<lambda>s p. s + f p) a xs = a + sum_list (map f xs)" for a :: real
  by (induction xs arbitrary: a) simp_all

text \<open>
  C7. For a non-empty vertex list \<open>centroid\<close> is the componentwise arithmetic mean of the
  vertices, and for the empty list it is \<open>(50, 50)\<close>.
\<close>

theorem centroid_mean:
  "centroid [] = (50, 50) \<and>
   (points \<noteq> [] \<longrightarrow>
      centroid points =
        (sum_list (map fst points) / real (length points),
         sum_list (map snd points) / real (length points)))"
  by (simp add: centroid_def Let_def foldl_add_sum_list)

theorem centroid_mean_witness:
  "[(0, 0), (4, 0), (4, 3)] \<noteq> ([] :: point list) \<and>
   centroid [(0, 0), (4, 0), (4, 3)] = (8 / 3, 1)"
  using centroid_mean [of "[(0, 0), (4, 0), (4, 3)]"] by simp

lemma ellipseLoop_map:
  "ellipseLoop cx cy rx ry segments i acc =
     acc @ map (\<lambda>k. (cx + rx * cos ((2 * pi * real k) / real segments),
                     cy + ry * sin ((2 * pi * real k) / real segments))) [i..<segments]"
proof (induction cx cy rx ry segments i acc rule: ellipseLoop.induct)
  case (1 cx cy rx ry segments i points)
  show ?case
  proof (cases "i < segments")
    case True
    then show ?thesis
      using "1.IH" [OF True refl]
      by (subst ellipseLoop.simps) (simp add: upt_conv_Cons Let_def)
  next
    case False
    then show ?thesis by (subst ellipseLoop.simps) simp
  qed
qed

text \<open>
  C5. For every pair of drag corners the rectangle seed has exactly four vertices, the
  corners \<open>(minX, minY), (maxX, minY), (maxX, maxY), (minX, maxY)\<close> of the normalised
  drag rectangle, clockwise from top-left (the y axis points down), and swapping the two
  corners of the drag gives the same list.
\<close>

theorem rect_seed_corners:
  "seedPoints Rect sx sy ex ey =
     [(min sx ex, min sy ey), (max sx ex, min sy ey),
      (max sx ex, max sy ey), (min sx ex, max sy ey)] \<and>
   length (seedPoints Rect sx sy ex ey) = 4 \<and>
   seedPoints Rect ex ey sx sy = seedPoints Rect sx sy ex ey"
  by (simp add: seedPoints_def Let_def min.commute max.commute)

lemma seedPoints_Ellipse_map:
  "seedPoints Ellipse sx sy ex ey =
     map (\<lambda>k. (min sx ex + (max sx ex - min sx ex) / 2
                       + (max sx ex - min sx ex) / 2 * cos ((2 * pi * real k) / real 8),
                     min sy ey + (max sy ey - min sy ey) / 2
                       + (max sy ey - min sy ey) / 2 * sin ((2 * pi * real k) / real 8)))
         [0..<8]"
  unfolding seedPoints_def Let_def shapeType.case ellipseLoop_map by simp

text \<open>
  C6. The ellipse seed has exactly eight vertices, and vertex \<open>i\<close> is the point of the
  ellipse inscribed in the normalised drag rectangle (centre \<open>(cx, cy)\<close>, half-extents
  \<open>(rx, ry)\<close>) at the angle \<open>2 * pi * i / 8\<close>.
\<close>

theorem ellipse_seed_parametric:
  "length (seedPoints Ellipse sx sy ex ey) = 8 \<and>
   (\<forall>i<8. seedPoints Ellipse sx sy ex ey ! i =
      ((min sx ex + max sx ex) / 2 + (max sx ex - min sx ex) / 2 * cos (2 * pi * real i / 8),
       (min sy ey + max sy ey) / 2 + (max sy ey - min sy ey) / 2 * sin (2 * pi * real i / 8)))"
proof (intro conjI allI impI)
  show "length (seedPoints Ellipse sx sy ex ey) = 8"
    unfolding seedPoints_Ellipse_map by simp
next
  fix i :: nat
  assume i: "i < 8"
  have cx: "min sx ex + (max sx ex - min sx ex) / 2 = (min sx ex + max sx ex) / 2"
    by (simp add: field_simps)
  have cy: "min sy ey + (max sy ey - min sy ey) / 2 = (min sy ey + max sy ey) / 2"
    by (simp add: field_simps)
  show "seedPoints Ellipse sx sy ex ey ! i =
      ((min sx ex + max sx ex) / 2 + (max sx ex - min sx ex) / 2 * cos (2 * pi * real i / 8),
       (min sy ey + max sy ey) / 2 + (max sy ey - min sy ey) / 2 * sin (2 * pi * real i / 8))"
    unfolding seedPoints_Ellipse_map using i by (simp only: nth_map length_upt nth_upt cx cy) simp
qed

theorem ellipse_seed_parametric_witness:
  "length (seedPoints Ellipse 0 0 20 10) = 8 \<and>
   seedPoints Ellipse 0 0 20 10 ! 0 = (20, 5) \<and>
   seedPoints Ellipse 0 0 20 10 ! 2 = (10, 10) \<and>
   seedPoints Ellipse 0 0 20 10 ! 4 = (0, 5)"
  using ellipse_seed_parametric [of 0 0 20 10] by simp

lemma join_Cons: "join sep (x # xs) = x @ concat (map (\<lambda>y. sep @ y) xs)"
  by (induction xs arbitrary: x) simp_all

lemma curveLoop_concat:
  "curveLoop num points i d =
     d @ concat (map (\<lambda>k. curveText num (bezierSegment points k)) [i..<length points])"
proof (induction num points i d rule: curveLoop.induct)
  case (1 num points i d)
  show ?case
  proof (cases "i < length points")
    case True
    then show ?thesis
      using "1.IH" [OF True]
      by (subst curveLoop.simps) (simp add: upt_conv_Cons)
  next
    case False
    then show ?thesis by (subst curveLoop.simps) simp
  qed
qed

lemma curveText_cmdText:
  "curveText num (bezierSegment points k) = '' '' @ cmdText num (curveCmd points k)"
  by (simp add: curveText_def curveCmd_def split: prod.splits)

lemma smooth_ge3:
  assumes "\<not> length points < 3"
  shows "smoothClosedPath num points = pathText num (pathCmds points)"
proof -
  have L: "smoothClosedPath num points =
      ''M '' @ coords num (points ! 0)
        @ concat (map (\<lambda>k. curveText num (bezierSegment points k)) [0..<length points])
        @ '' Z''"
    using assms unfolding smoothClosedPath_def Let_def curveLoop_concat by simp
  have R: "pathText num (pathCmds points) =
      ''M '' @ coords num (points ! 0)
        @ concat (map (\<lambda>k. '' '' @ cmdText num (curveCmd points k)) [0..<length points])
        @ '' Z''"
    using assms unfolding pathText_def pathCmds_def Let_def
    by (simp add: join_Cons comp_def del: upt.simps)
  show ?thesis unfolding L R curveText_cmdText ..
qed

lemma smoothClosedPath_pathText:
  assumes "points \<noteq> []"
  shows "smoothClosedPath num points = pathText num (pathCmds points)"
proof (cases "length points < 3")
  case True
  then consider p where "points = [p]" | p q where "points = [p, q]"
    using assms by (cases points; cases "tl points"; cases "tl (tl points)") auto
  then show ?thesis
    by cases
      (simp_all add: smoothClosedPath_def pathText_def pathCmds_def straightItem_def upt_rec)
next
  case False
  then show ?thesis by (rule smooth_ge3)
qed

lemma wrap_last: "0 < n \<Longrightarrow> (n - 1 + 1) mod n = (0::nat)"
  by simp

lemma penStep_keeps_start:
  "\<forall>c \<in> set cs. \<exists>a b p. c = CurveTo a b p \<Longrightarrow>
   \<exists>c'. foldl penStep (Some (s, c0)) cs = Some (s, c')"
  by (induction cs arbitrary: c0) auto

lemma penAfter_curves:
  assumes "3 \<le> length points"
  shows "penAfter (MoveTo (points ! 0) # map (curveCmd points) [0..<length points]) =
           Some (points ! 0, points ! 0)"
proof -
  let ?n = "length points"
  have n: "0 < ?n" using assms by linarith
  then have upt: "[0..<?n] = [0..<?n - 1] @ [?n - 1]"
    by (metis Suc_diff_1 upt_Suc_append zero_le)
  have lastc: "\<exists>a b. curveCmd points (?n - 1) = CurveTo a b (points ! 0)"
    using n by (simp add: curveCmd_def bezierSegment_def Let_def wrap_last)
  have "\<forall>c \<in> set (map (curveCmd points) [0..<?n - 1]). \<exists>a b p. c = CurveTo a b p"
    by (auto simp: curveCmd_def split: prod.splits)
  from penStep_keeps_start [OF this]
  obtain c' where c': "foldl penStep (Some (points ! 0, points ! 0))
      (map (curveCmd points) [0..<?n - 1]) = Some (points ! 0, c')"
    by blast
  from lastc obtain a b where ab: "curveCmd points (?n - 1) = CurveTo a b (points ! 0)"
    by blast
  show ?thesis
    unfolding penAfter_def
    using c' ab by (subst upt) simp
qed

text \<open>
  C8. For a vertex list of length at least 1 the text built by \<open>smoothClosedPath\<close> spells
  a closed path: it starts with a move to the first vertex, ends with the close command,
  and the pen ends on the point of the initial move. For three or more vertices the last
  cubic segment already ends on the first vertex; for fewer than three the path is the
  straight segments between the points, closed.
\<close>

theorem smoothClosedPath_closed:
  assumes "points \<noteq> []"
  shows "smoothClosedPath num points = pathText num (pathCmds points) \<and>
         hd (pathCmds points) = MoveTo (hd points) \<and>
         last (pathCmds points) = ClosePath \<and>
         penAfter (pathCmds points) = Some (hd points, hd points) \<and>
         (3 \<le> length points \<longrightarrow>
            (\<exists>c1 c2. last (butlast (pathCmds points)) = CurveTo c1 c2 (hd points)) \<and>
            penAfter (butlast (pathCmds points)) = Some (hd points, hd points)) \<and>
         (length points < 3 \<longrightarrow>
            pathCmds points = MoveTo (hd points) # map LineTo (tl points) @ [ClosePath])"
proof (cases "length points < 3")
  case True
  then consider p where "points = [p]" | p q where "points = [p, q]"
    using assms by (cases points; cases "tl points"; cases "tl (tl points)") auto
  then show ?thesis
  proof cases
    case 1
    then show ?thesis
      using smoothClosedPath_pathText [OF assms, of num]
      by (simp add: pathCmds_def penAfter_def)
  next
    case 2
    then show ?thesis
      using smoothClosedPath_pathText [OF assms, of num]
      by (simp add: pathCmds_def penAfter_def upt_rec)
  qed
next
  case False
  then have n3: "3 \<le> length points" by simp
  have hd0: "points ! 0 = hd points" using assms by (simp add: hd_conv_nth)
  have cmds: "pathCmds points =
      (MoveTo (points ! 0) # map (curveCmd points) [0..<length points]) @ [ClosePath]"
    using False by (simp add: pathCmds_def)
  have n: "0 < length points" using n3 by linarith
  then have upt: "[0..<length points] = [0..<length points - 1] @ [length points - 1]"
    by (metis Suc_diff_1 upt_Suc_append zero_le)
  have lastc: "\<exists>a b. curveCmd points (length points - 1) = CurveTo a b (points ! 0)"
    using n by (simp add: curveCmd_def bezierSegment_def Let_def wrap_last)
  have pen: "penAfter (MoveTo (points ! 0) # map (curveCmd points) [0..<length points]) =
      Some (points ! 0, points ! 0)"
    by (rule penAfter_curves [OF n3])
  have "penAfter (pathCmds points) = Some (hd points, hd points)"
    using pen unfolding cmds penAfter_def by (simp add: hd0)
  moreover have "\<exists>c1 c2. last (butlast (pathCmds points)) = CurveTo c1 c2 (hd points)"
    unfolding cmds butlast_snoc using lastc n3 by (subst upt) (auto simp: hd0)
  moreover have "penAfter (butlast (pathCmds points)) = Some (hd points, hd points)"
    unfolding cmds butlast_snoc using pen by (simp add: hd0)
  ultimately show ?thesis
    using smoothClosedPath_pathText [OF assms, of num] False
    by (simp add: cmds hd0)
qed

theorem smoothClosedPath_closed_witness:
  "[(0, 0), (10, 0), (10, 10), (0, 10)] \<noteq> ([] :: point list) \<and>
   last (pathCmds [(0, 0), (10, 0), (10, 10), (0, 10)]) = ClosePath \<and>
   penAfter (pathCmds [(0, 0), (10, 0), (10, 10), (0, 10)]) = Some ((0, 0), (0, 0)) \<and>
   penAfter (butlast (pathCmds [(0, 0), (10, 0), (10, 10), (0, 10)])) = Some ((0, 0), (0, 0)) \<and>
   [(5, 5), (7, 9)] \<noteq> ([] :: point list) \<and>
   pathCmds [(5, 5), (7, 9)] = [MoveTo (5, 5), LineTo (7, 9), ClosePath]"
proof -
  have a: "[(0, 0), (10, 0), (10, 10), (0, 10)] \<noteq> ([] :: point list)" by simp
  have b: "[(5, 5), (7, 9)] \<noteq> ([] :: point list)" by simp
  note A = smoothClosedPath_closed [OF a, THEN conjunct2, THEN conjunct2]
  note B = smoothClosedPath_closed [OF b, THEN conjunct2, THEN conjunct2]
  have 1: "last (pathCmds [(0, 0), (10, 0), (10, 10), (0, 10)]) = ClosePath"
    using A by (rule conjunct1)
  have 2: "penAfter (pathCmds [(0, 0), (10, 0), (10, 10), (0, 10)]) = Some ((0, 0), (0, 0))"
    using A [THEN conjunct2, THEN conjunct1] by simp
  have 3: "penAfter (butlast (pathCmds [(0, 0), (10, 0), (10, 10), (0, 10)])) = Some ((0, 0), (0, 0))"
    using A [THEN conjunct2, THEN conjunct2, THEN conjunct1] by simp
  have 4: "pathCmds [(5, 5), (7, 9)] = [MoveTo (5, 5), LineTo (7, 9), ClosePath]"
    using B [THEN conjunct2, THEN conjunct2, THEN conjunct2] by simp
  show ?thesis using a b 1 2 3 4 by blast
qed

section \<open>Properties of the store and the view\<close>

lemma find_updFirst:
  assumes "\<And>x. P (g x) = P x"
  shows "find P (updFirst P g xs) = map_option g (find P xs)"
  using assms by (induction xs) simp_all

lemma currentProfile_modifyHotspots:
  "currentProfile (modifyHotspots f st) =
     map_option (\<lambda>p. p\<lparr>p_hotspots := f (p_hotspots p)\<rparr>) (currentProfile st)"
  by (simp add: currentProfile_def modifyHotspots_def find_updFirst)

lemma currentHotspots_modifyHotspots:
  "currentProfile st = Some p \<Longrightarrow> currentHotspots (modifyHotspots f st) = f (p_hotspots p)"
  by (simp add: currentHotspots_def currentProfile_modifyHotspots)

lemma currentHotspots_Some:
  "currentProfile st = Some p \<Longrightarrow> currentHotspots st = p_hotspots p"
  by (simp add: currentHotspots_def)

lemma currentProfile_fields [simp]:
  "currentProfile (st\<lparr>undoStack := u\<rparr>) = currentProfile st"
  "currentProfile (st\<lparr>selectedHotspotId := a\<rparr>) = currentProfile st"
  "currentProfile (st\<lparr>editingEdgesHotspotId := b\<rparr>) = currentProfile st"
  "currentProfile (st\<lparr>drawingShapeType := c\<rparr>) = currentProfile st"
  "currentProfile (st\<lparr>isEditMode := d\<rparr>) = currentProfile st"
  "currentProfile (st\<lparr>saved := sv\<rparr>) = currentProfile st"
  "currentProfile (st\<lparr>notices := n\<rparr>) = currentProfile st"
  "currentProfile (st\<lparr>keydownListeners := k\<rparr>) = currentProfile st"
  by (simp_all add: currentProfile_def)

lemma currentProfile_effects [simp]:
  "currentProfile (saveSettings st) = currentProfile st"
  "currentProfile (notice msg st) = currentProfile st"
  by (simp_all add: saveSettings_def notice_def)

lemma currentHotspots_fields [simp]:
  "currentHotspots (st\<lparr>undoStack := u\<rparr>) = currentHotspots st"
  "currentHotspots (st\<lparr>selectedHotspotId := a\<rparr>) = currentHotspots st"
  "currentHotspots (st\<lparr>editingEdgesHotspotId := b\<rparr>) = currentHotspots st"
  "currentHotspots (st\<lparr>drawingShapeType := c\<rparr>) = currentHotspots st"
  "currentHotspots (st\<lparr>isEditMode := d\<rparr>) = currentHotspots st"
  "currentHotspots (st\<lparr>saved := sv\<rparr>) = currentHotspots st"
  "currentHotspots (st\<lparr>notices := n\<rparr>) = currentHotspots st"
  "currentHotspots (st\<lparr>keydownListeners := k\<rparr>) = currentHotspots st"
  "currentHotspots (saveSettings st) = currentHotspots st"
  "currentHotspots (notice msg st) = currentHotspots st"
  by (simp_all add: currentHotspots_def)

lemma modifyHotspots_fields [simp]:
  "undoStack (modifyHotspots f st) = undoStack st"
  "isEditMode (modifyHotspots f st) = isEditMode st"
  "selectedHotspotId (modifyHotspots f st) = selectedHotspotId st"
  "editingEdgesHotspotId (modifyHotspots f st) = editingEdgesHotspotId st"
  "drawingShapeType (modifyHotspots f st) = drawingShapeType st"
  "saved (modifyHotspots f st) = saved st"
  "notices (modifyHotspots f st) = notices st"
  "keydownListeners (modifyHotspots f st) = keydownListeners st"
  "activeProfileId (settings (modifyHotspots f st)) = activeProfileId (settings st)"
  by (simp_all add: modifyHotspots_def)

lemma settings_effects [simp]:
  "settings (saveSettings st) = settings st"
  "settings (notice msg st) = settings st"
  "keydownListeners (saveSettings st) = keydownListeners st"
  "keydownListeners (notice msg st) = keydownListeners st"
  "isEditMode (saveSettings st) = isEditMode st"
  "isEditMode (notice msg st) = isEditMode st"
  "editingEdgesHotspotId (saveSettings st) = editingEdgesHotspotId st"
  "editingEdgesHotspotId (notice msg st) = editingEdgesHotspotId st"
  by (simp_all add: saveSettings_def notice_def)

subsection \<open>What a render changes\<close>

lemma renderRoom_fields [simp]:
  "undoStack (renderRoom st) = undoStack st"
  "isEditMode (renderRoom st) = isEditMode st"
  "editingEdgesHotspotId (renderRoom st) = editingEdgesHotspotId st"
  "selectedHotspotId (renderRoom st) = selectedHotspotId st"
  "drawingShapeType (renderRoom st) = drawingShapeType st"
  "notices (renderRoom st) = notices st"
  by (simp_all add: renderRoom_def getCurrentProfile_def registerKeyHandler_def
      saveSettings_def Let_def split: option.splits)

lemma renderRoom_active:
  assumes "activeProfileId (settings st) \<noteq> []"
  shows "renderRoom st =
     (case currentProfile st of None \<Rightarrow> st | Some p \<Rightarrow> registerKeyHandler st)"
  using assms by (simp add: renderRoom_def getCurrentProfile_def Let_def split: option.splits)

lemma renderRoom_store [simp]:
  assumes "activeProfileId (settings st) \<noteq> []"
  shows "settings (renderRoom st) = settings st"
    and "saved (renderRoom st) = saved st"
    and "currentHotspots (renderRoom st) = currentHotspots st"
    and "currentProfile (renderRoom st) = currentProfile st"
  unfolding renderRoom_active [OF assms]
  by (simp_all add: registerKeyHandler_def split: option.splits)

lemma renderRoom_registers:
  assumes "activeProfileId (settings st) \<noteq> []" and "currentProfile st = Some p"
  shows "keydownListeners (renderRoom st) =
     (if isEditMode st \<and> truthy (editingEdgesHotspotId st)
      then Suc (keydownListeners st) else keydownListeners st)"
  unfolding renderRoom_active [OF assms(1)] using assms(2)
  by (simp add: registerKeyHandler_def)

text \<open>
  C4. When the pointer is released after a drag whose normalised rectangle is less than 2
  units wide and less than 2 units high, no hotspot is created: the view, and with it the
  hotspot list of the active profile, is what it was before. When the width or the height
  is at least 2, exactly one new hotspot is appended to that list.
\<close>

theorem degenerate_drag_guard:
  assumes "isDragging g" and "previewShape g" and "currentProfile st = Some p"
  shows
    "(let curX = clamp100 (percentX imgRect e);
          curY = clamp100 (percentY imgRect e);
          w = \<bar>curX - drawStartX g\<bar>;
          h = \<bar>curY - drawStartY g\<bar>;
          st' = snd (onDrawUp shape newId e imgRect (g, st))
      in (w < 2 \<and> h < 2 \<longrightarrow> st' = st \<and> currentHotspots st' = p_hotspots p) \<and>
         (2 \<le> w \<or> 2 \<le> h \<longrightarrow>
            currentHotspots st' =
              p_hotspots p @
                [newHotspot newId (seedPoints shape (drawStartX g) (drawStartY g) curX curY) shape]))"
proof -
  have w: "max a b - min a b = \<bar>b - a\<bar>" for a b :: real
    by (simp add: max_def min_def)
  show ?thesis
    using assms
    by (auto simp: onDrawUp_def Let_def w currentHotspots_Some currentHotspots_modifyHotspots)
qed

section \<open>Properties of edge editing\<close>

lemma findIndex_Some:
  "findIndex P xs = Some i \<Longrightarrow> i < length xs \<and> P (xs ! i)"
proof (induction xs arbitrary: i)
  case Nil
  then show ?case by simp
next
  case (Cons x xs)
  then show ?case
    by (auto split: if_splits option.splits)
qed

lemma findIndex_update:
  assumes "i < length xs" and "P y = P (xs ! i)"
  shows "findIndex P (xs[i := y]) = findIndex P xs"
  using assms
proof (induction xs arbitrary: i)
  case Nil
  then show ?case by simp
next
  case (Cons x xs)
  show ?case
  proof (cases i)
    case 0
    then show ?thesis using Cons.prems by simp
  next
    case (Suc j)
    then show ?thesis using Cons.prems Cons.IH [of j] by simp
  qed
qed

lemma currentHotspots_nonempty_profile:
  "hi < length (currentHotspots st) \<Longrightarrow> \<exists>p. currentProfile st = Some p"
  by (cases "currentProfile st") (simp_all add: currentHotspots_def)

lemma currentHotspots_setPoints:
  assumes "hi < length (currentHotspots st)"
  shows "currentHotspots (setPoints hi ps st) =
           (currentHotspots st)[hi := (currentHotspots st ! hi)\<lparr>h_points := Some ps\<rparr>]"
proof -
  from currentHotspots_nonempty_profile [OF assms]
  obtain p where p: "currentProfile st = Some p" by blast
  then have hs: "currentHotspots st = p_hotspots p" by (rule currentHotspots_Some)
  show ?thesis
    using assms unfolding setPoints_def currentHotspots_modifyHotspots [OF p] hs by simp
qed

lemma setPoints_fields [simp]:
  "undoStack (setPoints hi ps st) = undoStack st"
  "saved (setPoints hi ps st) = saved st"
  "notices (setPoints hi ps st) = notices st"
  "editingEdgesHotspotId (setPoints hi ps st) = editingEdgesHotspotId st"
  "isEditMode (setPoints hi ps st) = isEditMode st"
  "keydownListeners (setPoints hi ps st) = keydownListeners st"
  "activeProfileId (settings (setPoints hi ps st)) = activeProfileId (settings st)"
  by (simp_all add: setPoints_def)








lemma editable_notice: "editable hi (notice msg st) = editable hi st"
  by (simp add: editable_def)


lemma undoStack_save [simp]: "undoStack (saveSettings st) = undoStack st"
  by (simp add: saveSettings_def)

lemma undoStack_notice [simp]: "undoStack (notice m st) = undoStack st"
  by (simp add: notice_def)







subsection \<open>One run of the key handler\<close>

lemma undo_run:
  assumes "truthy (editingEdgesHotspotId st)"
    and "findIndex (\<lambda>h. Some (h_id h) = editingEdgesHotspotId st) (currentHotspots st) = Some hi"
    and "h_points (currentHotspots st ! hi) = Some ps"
    and "key e = ''z''" and "ctrlKey e \<or> metaKey e"
    and "1 < length (undoStack st)"
  shows "edgeEditKeyHandler e st =
      notice ''Undo!'' (renderRoom (setPoints hi (last (butlast (undoStack st)))
        (st\<lparr>undoStack := butlast (undoStack st)\<rparr>)))"
proof -
  have ne: "butlast (undoStack st) \<noteq> []"
    using assms(6) by (cases "undoStack st" rule: rev_cases) auto
  have top: "butlast (undoStack st) ! (length (undoStack st) - 1 - 1) = last (butlast (undoStack st))"
    using ne by (simp add: last_conv_nth)
  show ?thesis
    using assms top by (simp add: edgeEditKeyHandler_def Let_def)
qed


text \<open>
  A run that pops leaves the view ready for the next run: the same hotspot is found, it has
  the restored vertex list, and in edit mode one more listener is registered.
\<close>

lemma undo_run_next:
  assumes "activeProfileId (settings st) \<noteq> []"
    and "truthy (editingEdgesHotspotId st)"
    and "findIndex (\<lambda>h. Some (h_id h) = editingEdgesHotspotId st) (currentHotspots st) = Some hi"
    and "h_points (currentHotspots st ! hi) = Some ps"
    and "key e = ''z''" and "ctrlKey e \<or> metaKey e"
    and "1 < length (undoStack st)"
  shows "undoStack (edgeEditKeyHandler e st) = butlast (undoStack st)"
    and "activeProfileId (settings (edgeEditKeyHandler e st)) \<noteq> []"
    and "editingEdgesHotspotId (edgeEditKeyHandler e st) = editingEdgesHotspotId st"
    and "findIndex (\<lambda>h. Some (h_id h) = editingEdgesHotspotId st)
           (currentHotspots (edgeEditKeyHandler e st)) = Some hi"
    and "h_points (currentHotspots (edgeEditKeyHandler e st) ! hi) =
           Some (last (butlast (undoStack st)))"
    and "keydownListeners (edgeEditKeyHandler e st) =
           (if isEditMode st then Suc (keydownListeners st) else keydownListeners st)"
proof -
  let ?prev = "last (butlast (undoStack st))"
  let ?st1 = "st\<lparr>undoStack := butlast (undoStack st)\<rparr>"
  let ?st2 = "setPoints hi ?prev ?st1"
  note run = undo_run [OF assms(2-7)]
  from findIndex_Some [OF assms(3)] have hi: "hi < length (currentHotspots st)"
    and same: "Some (h_id (currentHotspots st ! hi)) = editingEdgesHotspotId st" by simp_all
  have hi1: "hi < length (currentHotspots ?st1)" using hi by simp
  have act2: "activeProfileId (settings ?st2) \<noteq> []" using assms(1) by simp
  have hs2: "currentHotspots ?st2 =
      (currentHotspots st)[hi := (currentHotspots st ! hi)\<lparr>h_points := Some ?prev\<rparr>]"
    using currentHotspots_setPoints [OF hi1] by simp
  have hs: "currentHotspots (edgeEditKeyHandler e st) = currentHotspots ?st2"
    unfolding run using act2 by simp
  show "undoStack (edgeEditKeyHandler e st) = butlast (undoStack st)"
    unfolding run by simp
  show "activeProfileId (settings (edgeEditKeyHandler e st)) \<noteq> []"
    unfolding run using act2 by simp
  show "editingEdgesHotspotId (edgeEditKeyHandler e st) = editingEdgesHotspotId st"
    unfolding run by simp
  show "findIndex (\<lambda>h. Some (h_id h) = editingEdgesHotspotId st)
           (currentHotspots (edgeEditKeyHandler e st)) = Some hi"
    unfolding hs hs2 using findIndex_update [OF hi, of
        "\<lambda>h. Some (h_id h) = editingEdgesHotspotId st"
        "(currentHotspots st ! hi)\<lparr>h_points := Some ?prev\<rparr>"] assms(3)
    by simp
  show "h_points (currentHotspots (edgeEditKeyHandler e st) ! hi) = Some ?prev"
    unfolding hs hs2 using hi by simp
  from currentHotspots_nonempty_profile [OF hi]
  obtain p where "currentProfile st = Some p" by blast
  then have "\<exists>p2. currentProfile ?st2 = Some p2"
    by (simp add: setPoints_def currentProfile_modifyHotspots)
  then obtain p2 where p2: "currentProfile ?st2 = Some p2" by blast
  show "keydownListeners (edgeEditKeyHandler e st) =
           (if isEditMode st then Suc (keydownListeners st) else keydownListeners st)"
    unfolding run using renderRoom_registers [OF act2 p2] assms(2) by simp
qed

subsection \<open>A key press\<close>



subsection \<open>Creation\<close>

lemma onDrawUp_creates:
  assumes "isDragging g" and "previewShape g" and "currentProfile st = Some p"
    and "2 \<le> \<bar>clamp100 (percentX rect up) - drawStartX g\<bar> \<or>
         2 \<le> \<bar>clamp100 (percentY rect up) - drawStartY g\<bar>"
  shows "snd (onDrawUp shape newId up rect (g, st)) =
     (let points = seedPoints shape (drawStartX g) (drawStartY g)
                     (clamp100 (percentX rect up)) (clamp100 (percentY rect up))
      in saveSettings
           ((modifyHotspots (\<lambda>hs. hs @ [newHotspot newId points shape]) st)
              \<lparr>selectedHotspotId := Some newId, editingEdgesHotspotId := Some newId,
               drawingShapeType := None, undoStack := [points]\<rparr>))"
proof -
  have w: "max a b - min a b = \<bar>b - a\<bar>" for a b :: real
    by (simp add: max_def min_def)
  show ?thesis
    using assms by (auto simp: onDrawUp_def Let_def w)
qed



subsection \<open>The scenarios\<close>

lemmas example_defs =
  roomProfile_def roomStore_def square_def box100_def mouseAt_def drawingView_def
  editingView_def ctrlZ_def legacyHotspot_def legacyView_def drawGesture0_def

lemma cur_drawing: "currentProfile drawingView = Some (roomProfile [])"
  by (simp add: currentProfile_def example_defs)

lemma cur_editing: "currentHotspots (editingView ps stack) = [newHotspot ''1'' ps Rect]"
  by (simp add: currentHotspots_def currentProfile_def example_defs)


lemma active_examples:
  "activeProfileId (settings drawingView) \<noteq> []"
  "activeProfileId (settings (editingView ps stack)) \<noteq> []"
  "activeProfileId (settings legacyView) \<noteq> []"
  by (simp_all add: example_defs)

lemma press: "imageContainer_onmousedown (mouseAt 10 10) box100 drawGesture0 =
   \<lparr>drawStartX = 10, drawStartY = 10, previewShape = True, isDragging = True\<rparr>"
  by (simp add: imageContainer_onmousedown_def example_defs r_right_def r_bottom_def
      percentX_def percentY_def)

lemma release:
  "clamp100 (percentX box100 (mouseAt 40 40)) = 40"
  "clamp100 (percentY box100 (mouseAt 40 40)) = 40"
  "clamp100 (percentX box100 (mouseAt 11 11)) = 11"
  "clamp100 (percentY box100 (mouseAt 11 11)) = 11"
  "clamp100 (percentX box100 (mouseAt 50 60)) = 50"
  "clamp100 (percentY box100 (mouseAt 50 60)) = 60"
  by (simp_all add: clamp100_def percentX_def percentY_def box100_def mouseAt_def)

lemma seed_square: "seedPoints Rect 10 10 40 40 = square"
  by (simp add: seedPoints_def square_def)

text \<open>
  The view in which the new rectangle is edge-edited is the view that drawing it leaves:
  press at (10,10), release at (40,40), render.
\<close>

lemma created_view:
  "renderRoom (snd (onDrawUp Rect ''1'' (mouseAt 40 40) box100
      (imageContainer_onmousedown (mouseAt 10 10) box100 drawGesture0, drawingView))) =
   editingView square [square]"
proof -
  let ?g = "imageContainer_onmousedown (mouseAt 10 10) box100 drawGesture0"
  have g: "isDragging ?g" "previewShape ?g" "drawStartX ?g = 10" "drawStartY ?g = 10"
    by (simp_all add: press)
  have big: "2 \<le> \<bar>clamp100 (percentX box100 (mouseAt 40 40)) - drawStartX ?g\<bar> \<or>
             2 \<le> \<bar>clamp100 (percentY box100 (mouseAt 40 40)) - drawStartY ?g\<bar>"
    unfolding release g by simp
  let ?c = "saveSettings
           ((modifyHotspots (\<lambda>hs. hs @ [newHotspot ''1'' square Rect]) drawingView)
              \<lparr>selectedHotspotId := Some ''1'', editingEdgesHotspotId := Some ''1'',
               drawingShapeType := None, undoStack := [square]\<rparr>)"
  have c: "snd (onDrawUp Rect ''1'' (mouseAt 40 40) box100 (?g, drawingView)) = ?c"
    using onDrawUp_creates [OF g(1) g(2) cur_drawing big, of Rect "''1''"]
    unfolding Let_def release g(3,4) seed_square .
  have act: "activeProfileId (settings ?c) \<noteq> []" by (simp add: active_examples)
  have cp: "currentProfile ?c \<noteq> None"
    by (simp add: currentProfile_modifyHotspots cur_drawing)
  have r: "renderRoom ?c = registerKeyHandler ?c"
    unfolding renderRoom_active [OF act] using cp by (auto split: option.splits)
  show ?thesis
    unfolding c r
    by (simp add: registerKeyHandler_def truthy_def saveSettings_def modifyHotspots_def
        drawingView_def editingView_def roomStore_def roomProfile_def)
qed


theorem degenerate_drag_guard_witness:
  "snd (onDrawUp Rect ''1'' (mouseAt 11 11) box100
          (imageContainer_onmousedown (mouseAt 10 10) box100 drawGesture0, drawingView)) =
     drawingView \<and>
   currentHotspots
     (snd (onDrawUp Rect ''1'' (mouseAt 40 40) box100
             (imageContainer_onmousedown (mouseAt 10 10) box100 drawGesture0, drawingView))) =
     [newHotspot ''1'' square Rect]"
proof -
  let ?g = "imageContainer_onmousedown (mouseAt 10 10) box100 drawGesture0"
  have g: "isDragging ?g" "previewShape ?g" "drawStartX ?g = 10" "drawStartY ?g = 10"
    by (simp_all add: press)
  note A = degenerate_drag_guard [OF g(1) g(2) cur_drawing, of box100 "mouseAt 11 11" Rect "''1''"]
  note B = degenerate_drag_guard [OF g(1) g(2) cur_drawing, of box100 "mouseAt 40 40" Rect "''1''"]
  have 1: "snd (onDrawUp Rect ''1'' (mouseAt 11 11) box100 (?g, drawingView)) = drawingView"
    using A unfolding Let_def release g(3,4) by simp
  have 2: "currentHotspots (snd (onDrawUp Rect ''1'' (mouseAt 40 40) box100 (?g, drawingView))) =
     [newHotspot ''1'' square Rect]"
    using B unfolding Let_def release g(3,4) seed_square by (simp add: roomProfile_def)
  show ?thesis using 1 2 by simp
qed



subsection \<open>A key press with two registered handlers\<close>

text \<open>
  After the rectangle is drawn, one vertex dragged and the shape dragged, the render at the
  end of the shape drag has registered a second handler. One press of Ctrl+Z then runs the
  handler twice: two snapshots are popped and the rectangle is back at its first vertices.
\<close>

lemma dragged_view:
  "runGesture 0 box100
     (runGesture 0 box100 (editingView square [square]) (VertexDrag 2 [mouseAt 50 60]))
     (ShapeDrag (mouseAt 20 20) [mouseAt 25 25]) =
   (editingView [(15, 15), (45, 15), (55, 65), (15, 45)]
      [square, square, [(10, 10), (40, 10), (50, 60), (10, 40)]])
     \<lparr>saved := [roomStore [newHotspot ''1'' square Rect],
                 roomStore [newHotspot ''1'' [(10, 10), (40, 10), (50, 60), (10, 40)] Rect],
                 roomStore [newHotspot ''1'' [(15, 15), (45, 15), (55, 65), (15, 45)] Rect]],
      keydownListeners := 2\<rparr>"
  by (simp add: handle_onmousedown_def onHandleMove_def onHandleUp_def shape_onmousedown_def
      onMove_def onUp_def renderRoom_def getCurrentProfile_def registerKeyHandler_def
      saveSettings_def setPoints_def modifyHotspots_def currentHotspots_def currentProfile_def
      truthy_def Let_def newHotspot_def clamp100_def percentX_def percentY_def example_defs)

lemma keydown_two_handlers_pop_twice:
  "(let st = runGesture 0 box100
               (runGesture 0 box100 (editingView square [square]) (VertexDrag 2 [mouseAt 50 60]))
               (ShapeDrag (mouseAt 20 20) [mouseAt 25 25])
    in keydownListeners st = 2 \<and>
       undoStack st = [square, square, [(10, 10), (40, 10), (50, 60), (10, 40)]] \<and>
       undoStack (document_keydown ctrlZ st) = [square] \<and>
       h_points (currentHotspots (document_keydown ctrlZ st) ! 0) = Some square)"
proof -
  let ?moved = "[(10, 10), (40, 10), (50, 60), (10, 40)] :: point list"
  let ?shifted = "[(15, 15), (45, 15), (55, 65), (15, 45)] :: point list"
  let ?st = "(editingView ?shifted [square, square, ?moved])
     \<lparr>saved := [roomStore [newHotspot ''1'' square Rect],
                 roomStore [newHotspot ''1'' ?moved Rect],
                 roomStore [newHotspot ''1'' ?shifted Rect]],
      keydownListeners := 2\<rparr>"
  let ?f = "\<lambda>h. Some (h_id h) = editingEdgesHotspotId ?st"
  have hs: "currentHotspots ?st = [newHotspot ''1'' ?shifted Rect]"
    by (simp add: cur_editing)
  have act: "activeProfileId (settings ?st) \<noteq> []" by (simp add: active_examples)
  have tr: "truthy (editingEdgesHotspotId ?st)" by (simp add: editingView_def truthy_def)
  have fi: "findIndex ?f (currentHotspots ?st) = Some 0"
    unfolding hs by (simp add: editingView_def newHotspot_def)
  have ps: "h_points (currentHotspots ?st ! 0) = Some ?shifted"
    unfolding hs by (simp add: newHotspot_def)
  have kz: "key ctrlZ = ''z''" "ctrlKey ctrlZ \<or> metaKey ctrlZ"
    by (simp_all add: ctrlZ_def)
  have u: "undoStack ?st = [square, square, ?moved]" by (simp add: editingView_def)
  have l: "1 < length (undoStack ?st)" unfolding u by simp
  have k: "keydownListeners ?st = 2" by simp
  let ?st1 = "edgeEditKeyHandler ctrlZ ?st"
  note first = undo_run_next [OF act tr fi ps kz l]
  have u1: "undoStack ?st1 = [square, square]" using first(1) unfolding u by simp
  have e1: "editingEdgesHotspotId ?st1 = editingEdgesHotspotId ?st" by (rule first(3))
  have tr1: "truthy (editingEdgesHotspotId ?st1)" unfolding e1 by (rule tr)
  have fi1: "findIndex (\<lambda>h. Some (h_id h) = editingEdgesHotspotId ?st1) (currentHotspots ?st1) =
      Some 0"
    unfolding e1 by (rule first(4))
  have ps1: "h_points (currentHotspots ?st1 ! 0) = Some square"
    using first(5) unfolding u by simp
  have l1: "1 < length (undoStack ?st1)" unfolding u1 by simp
  note second = undo_run_next [OF first(2) tr1 fi1 ps1 kz l1]
  have two: "document_keydown ctrlZ ?st = edgeEditKeyHandler ctrlZ ?st1"
    by (simp add: document_keydown_def numeral_2_eq_2)
  have u2: "undoStack (document_keydown ctrlZ ?st) = [square]"
    unfolding two using second(1) unfolding u1 by simp
  have p2: "h_points (currentHotspots (document_keydown ctrlZ ?st) ! 0) = Some square"
    unfolding two using second(5) unfolding u1 by simp
  show ?thesis unfolding Let_def dragged_view using k u u2 p2 by blast
qed

subsection \<open>Leaving edit mode\<close>

lemma editModeBtn_onclick_off:
  assumes "isEditMode st" and "activeProfileId (settings st) \<noteq> []"
  shows "saved (editModeBtn_onclick st) = saved st @ [settings st]"
    and "settings (editModeBtn_onclick st) = settings st"
    and "\<not> isEditMode (editModeBtn_onclick st)"
    and "selectedHotspotId (editModeBtn_onclick st) = None"
    and "drawingShapeType (editModeBtn_onclick st) = None"
    and "editingEdgesHotspotId (editModeBtn_onclick st) = editingEdgesHotspotId st"
    and "undoStack (editModeBtn_onclick st) = undoStack st"
    and "keydownListeners (editModeBtn_onclick st) = keydownListeners st"
proof -
  let ?c = "(notice ''Layout saved!'' (saveSettings st))
      \<lparr>isEditMode := False, selectedHotspotId := None, drawingShapeType := None\<rparr>"
  have run: "editModeBtn_onclick st = renderRoom ?c"
    using assms(1) by (simp add: editModeBtn_onclick_def Let_def)
  have act: "activeProfileId (settings ?c) \<noteq> []" using assms(2) by simp
  have r: "renderRoom ?c = ?c"
    unfolding renderRoom_active [OF act]
    by (simp add: registerKeyHandler_def split: option.splits)
  show "saved (editModeBtn_onclick st) = saved st @ [settings st]"
    unfolding run r by (simp add: notice_def saveSettings_def)
  show "settings (editModeBtn_onclick st) = settings st" unfolding run r by simp
  show "\<not> isEditMode (editModeBtn_onclick st)" unfolding run r by simp
  show "selectedHotspotId (editModeBtn_onclick st) = None" unfolding run r by simp
  show "drawingShapeType (editModeBtn_onclick st) = None" unfolding run r by simp
  show "editingEdgesHotspotId (editModeBtn_onclick st) = editingEdgesHotspotId st"
    unfolding run r by simp
  show "undoStack (editModeBtn_onclick st) = undoStack st" unfolding run r by simp
  show "keydownListeners (editModeBtn_onclick st) = keydownListeners st" unfolding run r by simp
qed

text \<open>
  C2, evaluated on the view in which the new rectangle is being edge-edited: the toggle
  saves the store first and leaves edit mode, but the hotspot stays in edge editing, is
  rendered with its four handles, and a drag of a handle still moves its vertex.
\<close>

theorem toggle_off_keeps_edge_editing:
  "(let st = editingView square [square];
        st' = editModeBtn_onclick st
    in saved st' = saved st @ [settings st] \<and>
       isEditMode st' = False \<and>
       editingEdgesHotspotId st' = Some ''1'' \<and>
       undoStack st' = [square] \<and>
       hotspotInteraction st' (currentHotspots st' ! 0) = EdgeEditing 4 \<and>
       h_points (currentHotspots (runGesture 0 box100 st' (VertexDrag 2 [mouseAt 50 60])) ! 0) =
         Some [(10, 10), (40, 10), (50, 60), (10, 40)])"
proof -
  let ?st = "editingView square [square]"
  let ?st' = "editModeBtn_onclick ?st"
  have e: "isEditMode ?st" by (simp add: editingView_def)
  note off = editModeBtn_onclick_off [OF e active_examples(2)]
  have hs: "currentHotspots ?st' = [newHotspot ''1'' square Rect]"
    using off(2) cur_editing [of square "[square]"]
    by (simp add: currentHotspots_def currentProfile_def)
  have 1: "saved ?st' = saved ?st @ [settings ?st]" by (rule off(1))
  have 2: "isEditMode ?st' = False" using off(3) by simp
  have 3: "editingEdgesHotspotId ?st' = Some ''1''" unfolding off(6) by (simp add: editingView_def)
  have 4: "undoStack ?st' = [square]" unfolding off(7) by (simp add: editingView_def)
  have 5: "hotspotInteraction ?st' (currentHotspots ?st' ! 0) = EdgeEditing 4"
    unfolding hs by (simp add: hotspotInteraction_def 3) (simp add: newHotspot_def square_def)
  have hi: "0 < length (currentHotspots ?st')" unfolding hs by simp
  have hi2: "0 < length (currentHotspots (?st'\<lparr>undoStack := undoStack ?st' @ [square]\<rparr>))"
    using hi by simp
  have 6: "h_points (currentHotspots (runGesture 0 box100 ?st' (VertexDrag 2 [mouseAt 50 60])) ! 0) =
         Some [(10, 10), (40, 10), (50, 60), (10, 40)]"
    by (simp add: handle_onmousedown_def onHandleMove_def onHandleUp_def hs Let_def release
        currentHotspots_setPoints [OF hi2] newHotspot_def)
      (simp add: square_def)
  show ?thesis unfolding Let_def using 1 2 3 4 5 6 by blast
qed

subsection \<open>The range of the coordinates\<close>

text \<open>
  The press that starts a drawing lies inside the image box, the corner at the release is
  clamped, and a dragged vertex is clamped: these paths keep every coordinate between 0
  and 100.
\<close>

lemma clamp100_bounds: "0 \<le> clamp100 v \<and> clamp100 v \<le> 100"
  by (simp add: clamp100_def)

lemma inRange_update:
  assumes "inRange ps" and "0 \<le> x" and "x \<le> 100" and "0 \<le> y" and "y \<le> 100"
  shows "inRange (ps[idx := (x, y)])"
proof -
  have "set (ps[idx := (x, y)]) \<subseteq> insert (x, y) (set ps)"
    by (rule set_update_subset_insert)
  then show ?thesis
    using assms unfolding inRange_def list_all_iff by auto
qed

lemma onHandleMove_inRange:
  assumes "hi < length (currentHotspots st)"
    and "h_points (currentHotspots st ! hi) = Some ps"
    and "inRange ps"
  shows "\<exists>ps'. h_points (currentHotspots (onHandleMove hi idx evt rect st) ! hi) = Some ps' \<and>
               inRange ps'"
proof -
  let ?v = "(clamp100 (percentX rect evt), clamp100 (percentY rect evt))"
  have run: "onHandleMove hi idx evt rect st = setPoints hi (ps[idx := ?v]) st"
    using assms(1,2) by (simp add: onHandleMove_def Let_def)
  have "h_points (currentHotspots (setPoints hi (ps[idx := ?v]) st) ! hi) = Some (ps[idx := ?v])"
    using assms(1) by (simp add: currentHotspots_setPoints)
  moreover have "inRange (ps[idx := ?v])"
    using inRange_update [OF assms(3)] clamp100_bounds by blast
  ultimately show ?thesis unfolding run by blast
qed

lemma ellipse_point_bounds:
  fixes lo hi c :: real
  assumes "lo \<le> hi" and "\<bar>c\<bar> \<le> 1"
  shows "lo \<le> lo + (hi - lo) / 2 + (hi - lo) / 2 * c"
    and "lo + (hi - lo) / 2 + (hi - lo) / 2 * c \<le> hi"
proof -
  have r: "0 \<le> (hi - lo) / 2" using assms(1) by simp
  have "\<bar>(hi - lo) / 2 * c\<bar> \<le> (hi - lo) / 2"
    using mult_left_le [OF _ r, of "\<bar>c\<bar>"] assms(2) r by (simp add: abs_mult)
  then have b: "- ((hi - lo) / 2) \<le> (hi - lo) / 2 * c \<and> (hi - lo) / 2 * c \<le> (hi - lo) / 2"
    by linarith
  from b show "lo \<le> lo + (hi - lo) / 2 + (hi - lo) / 2 * c" by linarith
  from b show "lo + (hi - lo) / 2 + (hi - lo) / 2 * c \<le> hi" by (simp add: field_simps)
qed

lemma seedPoints_inRange:
  assumes "0 \<le> sx" "sx \<le> 100" "0 \<le> sy" "sy \<le> 100"
    and "0 \<le> ex" "ex \<le> 100" "0 \<le> ey" "ey \<le> 100"
  shows "inRange (seedPoints shape sx sy ex ey)"
proof (cases shape)
  case Rect
  then show ?thesis using assms
    by (simp add: seedPoints_def inRange_def Let_def min_def max_def)
next
  case Triangle
  then show ?thesis using assms
    by (auto simp: seedPoints_def inRange_def Let_def min_def max_def field_simps)
next
  case Ellipse
  have x: "min sx ex \<le> max sx ex" and y: "min sy ey \<le> max sy ey" by simp_all
  have lo: "0 \<le> min sx ex" "0 \<le> min sy ey" and hi: "max sx ex \<le> 100" "max sy ey \<le> 100"
    using assms by simp_all
  show ?thesis
    unfolding Ellipse seedPoints_Ellipse_map inRange_def list_all_iff
  proof
    fix p
    assume "p \<in> set (map (\<lambda>k. (min sx ex + (max sx ex - min sx ex) / 2
                       + (max sx ex - min sx ex) / 2 * cos ((2 * pi * real k) / real 8),
                     min sy ey + (max sy ey - min sy ey) / 2
                       + (max sy ey - min sy ey) / 2 * sin ((2 * pi * real k) / real 8)))
         [0..<8])"
    then obtain k where p: "p = (min sx ex + (max sx ex - min sx ex) / 2
                       + (max sx ex - min sx ex) / 2 * cos ((2 * pi * real k) / real 8),
                     min sy ey + (max sy ey - min sy ey) / 2
                       + (max sy ey - min sy ey) / 2 * sin ((2 * pi * real k) / real 8))"
      by auto
    have c: "\<bar>cos ((2 * pi * real k) / real 8)\<bar> \<le> 1" by (rule abs_cos_le_one)
    have s: "\<bar>sin ((2 * pi * real k) / real 8)\<bar> \<le> 1" by (rule abs_sin_le_one)
    from ellipse_point_bounds [OF x c] ellipse_point_bounds [OF y s] lo hi
    show "0 \<le> fst p \<and> fst p \<le> 100 \<and> 0 \<le> snd p \<and> snd p \<le> 100"
      unfolding p fst_conv snd_conv by linarith
  qed
qed

lemma press_inRange:
  assumes "0 < r_width rect" and "0 < r_height rect" and "button e = 0"
    and "r_left rect \<le> clientX e" and "clientX e \<le> r_right rect"
    and "r_top rect \<le> clientY e" and "clientY e \<le> r_bottom rect"
  shows "0 \<le> drawStartX (imageContainer_onmousedown e rect g) \<and>
         drawStartX (imageContainer_onmousedown e rect g) \<le> 100 \<and>
         0 \<le> drawStartY (imageContainer_onmousedown e rect g) \<and>
         drawStartY (imageContainer_onmousedown e rect g) \<le> 100"
  using assms
  by (simp add: imageContainer_onmousedown_def percentX_def percentY_def r_right_def
      r_bottom_def field_simps)

text \<open>
  C3, evaluated on a drag of the whole rectangle by 70 units to the right: the vertices
  start inside the range from 0 to 100, two of them end at x = 110, and that vertex list
  is what is saved.
\<close>

theorem shape_drag_leaves_range:
  "(let st = editingView square [square];
        st' = runGesture 0 box100 st (ShapeDrag (mouseAt 20 20) [mouseAt 90 20])
    in inRange square \<and>
       h_points (currentHotspots st ! 0) = Some square \<and>
       h_points (currentHotspots st' ! 0) = Some [(80, 10), (110, 10), (110, 40), (80, 40)] \<and>
       \<not> inRange [(80, 10), (110, 10), (110, 40), (80, 40)] \<and>
       last (saved st') = settings st')"
proof -
  let ?st = "editingView square [square]"
  let ?st' = "runGesture 0 box100 ?st (ShapeDrag (mouseAt 20 20) [mouseAt 90 20])"
  let ?d = "\<lparr>startX = clientX (mouseAt 20 20), startY = clientY (mouseAt 20 20),
      dragRect = box100, origPts = square\<rparr>"
  let ?pushed = "?st\<lparr>undoStack := undoStack ?st @ [square]\<rparr>"
  let ?moved = "onMove 0 ?d (mouseAt 90 20) ?pushed"
  have hs: "currentHotspots ?st = [newHotspot ''1'' square Rect]" by (rule cur_editing)
  have hi2: "0 < length (currentHotspots ?pushed)" using hs by simp
  have run: "?st' = renderRoom (saveSettings ?moved)"
    by (simp add: shape_onmousedown_def onUp_def hs newHotspot_def)
  have act: "activeProfileId (settings (saveSettings ?moved)) \<noteq> []"
    by (simp add: onMove_def Let_def active_examples)
  have 1: "inRange square" by (simp add: inRange_def square_def)
  have 2: "h_points (currentHotspots ?st ! 0) = Some square"
    unfolding hs by (simp add: newHotspot_def)
  have 3: "h_points (currentHotspots ?st' ! 0) = Some [(80, 10), (110, 10), (110, 40), (80, 40)]"
    unfolding run using act
    by (simp add: onMove_def hs Let_def currentHotspots_setPoints [OF hi2] newHotspot_def)
      (simp add: square_def box100_def mouseAt_def)
  have 4: "\<not> inRange [(80, 10), (110, 10), (110, 40), (80, 40)]"
    by (simp add: inRange_def)
  have 5: "last (saved ?st') = settings ?st'"
    unfolding run using act by (simp add: saveSettings_def)
  show ?thesis unfolding Let_def using 1 2 3 4 5 by blast
qed

section \<open>Properties of loading, rendering and navigation\<close>

text \<open>
  C9, the claim as stated fails: a persisted hotspot with no vertices and no rectangle
  fields is still in the store after loading.
\<close>

theorem load_keeps_corrupt_counterexample:
  "h_points corruptHotspot = None \<and>
   h_top corruptHotspot = None \<and> h_left corruptHotspot = None \<and>
   h_width corruptHotspot = None \<and> h_height corruptHotspot = None \<and>
   profiles (loadSettings (Some corruptData)) = [roomProfile [corruptHotspot]] \<and>
   profiles (fst (onload (Some corruptData))) = [roomProfile [corruptHotspot]] \<and>
   corruptHotspot \<in> set (p_hotspots (profiles (fst (onload (Some corruptData))) ! 0))"
  by (simp add: corruptHotspot_def corruptData_def loadSettings_def onload_def roomProfile_def
      DEFAULT_SETTINGS_def)

lemma renderShape_None:
  "renderShape num parseFloat h = None \<longleftrightarrow>
     (h_points h = None \<or> h_points h = Some []) \<and> \<not> truthy (h_top h)"
  by (auto simp: renderShape_def Let_def split: option.splits if_splits)

text \<open>
  C9 (as amended). Loading drops no hotspot: the loaded store holds the persisted profiles
  with all their hotspots (or, when there is no profile, one default profile with all the
  hotspots of the old format). A hotspot that has neither a non-empty vertex list nor a
  non-empty \<^verbatim>\<open>top\<close> field is skipped when the room is rendered, and only such a hotspot is.
\<close>

theorem load_keeps_render_skips:
  "(d_profiles d = Some ps \<longrightarrow> profiles (loadSettings (Some d)) = ps) \<and>
   (d_profiles d = Some ps \<and> ps \<noteq> [] \<longrightarrow> fst (onload (Some d)) = loadSettings (Some d)) \<and>
   (d_profiles d = None \<or> d_profiles d = Some [] \<longrightarrow>
      map p_hotspots (profiles (fst (onload (Some d)))) =
        [case d_hotspots d of Some hs \<Rightarrow> hs | None \<Rightarrow> []]) \<and>
   (renderShape num parseFloat h = None \<longleftrightarrow>
      (h_points h = None \<or> h_points h = Some []) \<and> \<not> truthy (h_top h)) \<and>
   (renderHotspot num parseFloat st h = None \<longleftrightarrow>
      (h_points h = None \<or> h_points h = Some []) \<and> \<not> truthy (h_top h))"
proof (intro conjI impI)
  show "profiles (loadSettings (Some d)) = ps" if "d_profiles d = Some ps"
    using that by (simp add: loadSettings_def)
  show "fst (onload (Some d)) = loadSettings (Some d)" if "d_profiles d = Some ps \<and> ps \<noteq> []"
    using that by (simp add: onload_def loadSettings_def Let_def)
  show "map p_hotspots (profiles (fst (onload (Some d)))) =
        [case d_hotspots d of Some hs \<Rightarrow> hs | None \<Rightarrow> []]"
    if "d_profiles d = None \<or> d_profiles d = Some []"
    using that
    by (auto simp: onload_def loadSettings_def Let_def DEFAULT_SETTINGS_def split: option.splits)
  show "renderShape num parseFloat h = None \<longleftrightarrow>
      (h_points h = None \<or> h_points h = Some []) \<and> \<not> truthy (h_top h)"
    by (rule renderShape_None)
  show "renderHotspot num parseFloat st h = None \<longleftrightarrow>
      (h_points h = None \<or> h_points h = Some []) \<and> \<not> truthy (h_top h)"
  proof -
    have "renderHotspot num parseFloat st h = None \<longleftrightarrow> renderShape num parseFloat h = None"
      by (cases "renderShape num parseFloat h") (simp_all add: renderHotspot_def)
    then show ?thesis by (simp only: renderShape_None)
  qed
qed

theorem load_keeps_render_skips_witness:
  "profiles (loadSettings (Some corruptData)) = [roomProfile [corruptHotspot]] \<and>
   fst (onload (Some corruptData)) = loadSettings (Some corruptData) \<and>
   renderShape (\<lambda>x. []) (\<lambda>s. 0) corruptHotspot = None \<and>
   map p_hotspots (profiles (fst (onload (Some (corruptData\<lparr>d_hotspots := Some [corruptHotspot],
      d_profiles := None\<rparr>))))) = [[corruptHotspot]]"
proof -
  have p: "d_profiles corruptData = Some [roomProfile [corruptHotspot]]"
    by (simp add: corruptData_def)
  have ne: "[roomProfile [corruptHotspot]] \<noteq> []" by simp
  note T = load_keeps_render_skips [of corruptData "[roomProfile [corruptHotspot]]"
      "\<lambda>x. []" "\<lambda>s. 0" corruptHotspot]
  have 1: "profiles (loadSettings (Some corruptData)) = [roomProfile [corruptHotspot]]"
    using T p by blast
  have 2: "fst (onload (Some corruptData)) = loadSettings (Some corruptData)"
    using T p ne by blast
  have c: "(h_points corruptHotspot = None \<or> h_points corruptHotspot = Some []) \<and>
      \<not> truthy (h_top corruptHotspot)"
    by (simp add: corruptHotspot_def truthy_def)
  have 3: "renderShape (\<lambda>x. []) (\<lambda>s. 0) corruptHotspot = None"
    using T c by blast
  let ?d = "corruptData\<lparr>d_hotspots := Some [corruptHotspot], d_profiles := None\<rparr>"
  have q: "d_profiles ?d = None \<or> d_profiles ?d = Some []" by simp
  have 4: "map p_hotspots (profiles (fst (onload (Some ?d)))) = [[corruptHotspot]]"
    using load_keeps_render_skips [of ?d, THEN conjunct2, THEN conjunct2, THEN conjunct1] q
    by simp
  show ?thesis using 1 2 3 4 by blast
qed

subsection \<open>Navigation\<close>

lemma splitOn_nonempty: "splitOn c s \<noteq> []"
  by (induction s) (auto split: list.splits)

lemma splitOn_first: "splitOn c s ! 0 = takeWhile (\<lambda>x. x \<noteq> c) s"
proof (induction s)
  case Nil
  then show ?case by simp
next
  case (Cons x xs)
  then show ?case
    using splitOn_nonempty [of c xs] by (cases "splitOn c xs") auto
qed

lemma takeWhile_no_sep: "c \<notin> set s \<Longrightarrow> takeWhile (\<lambda>x. x \<noteq> c) s = s"
  by (induction s) auto

lemma trim_Nil: "trim [] = []"
  by (simp add: trim_def)

lemma showZoneFiles_blank:
  assumes "trim (orElse currentPath (h_path hotspot)) = []"
  shows "showZoneFiles vault hotspot currentPath = ([], NoLinkedFolder)"
  using assms by (simp add: showZoneFiles_def Let_def)

lemma showZoneFiles_retry:
  assumes "trim (orElse currentPath (h_path hotspot)) \<noteq> []"
    and "vault (takeWhile (\<lambda>c. c \<noteq> CHR ''#'') (orElse currentPath (h_path hotspot))) = None"
    and "\<not> endsWith (takeWhile (\<lambda>c. c \<noteq> CHR ''#'') (orElse currentPath (h_path hotspot))) ''.md''"
  shows
    "(let base = takeWhile (\<lambda>c. c \<noteq> CHR ''#'') (orElse currentPath (h_path hotspot));
          res = showZoneFiles vault hotspot currentPath
      in take 2 (fst res) = [base, base @ ''.md''] \<and>
         (\<forall>f. vault (base @ ''.md'') = Some (TFile f) \<longrightarrow>
            fst res = [base, base @ ''.md''] \<and> (\<exists>sub. snd res = OpenedFile f sub)) \<and>
         ((\<forall>f. vault (base @ ''.md'') \<noteq> Some (TFile f)) \<longrightarrow>
            fst res = [base, base @ ''.md'', base] \<and> snd res = PathNotFound base))"
proof -
  let ?p0 = "orElse currentPath (h_path hotspot)"
  let ?base = "takeWhile (\<lambda>c. c \<noteq> CHR ''#'') ?p0"
  have ne: "?p0 \<noteq> []" using assms(1) trim_Nil by auto
  have path: "(if CHR ''#'' \<in> set ?p0 then splitOn (CHR ''#'') ?p0 ! 0 else ?p0) = ?base"
    by (simp add: splitOn_first takeWhile_no_sep)
  show ?thesis
    using assms ne
    unfolding showZoneFiles_def Let_def path
    by (auto split: option.splits abstractFile.splits)
qed

text \<open>
  C10, the claim as stated fails: a destination that is a single space names nothing in
  the vault and does not end in \<^verbatim>\<open>.md\<close>, and no lookup is made for it, with or without
  \<^verbatim>\<open>.md\<close>.
\<close>

theorem blank_destination_counterexample:
  "h_path blankHotspot = '' '' \<and>
   emptyVault '' '' = None \<and>
   endsWith '' '' ''.md'' = False \<and>
   showZoneFiles emptyVault blankHotspot None = ([], NoLinkedFolder)"
  by (simp add: blankHotspot_def deskHotspot_def emptyVault_def endsWith_def showZoneFiles_def
      orElse_def trim_def isSpace_def Let_def)

text \<open>
  C10 (as amended). For an empty or all-white-space destination no lookup is made and the
  notice that the region has no linked folder is shown. For any other destination whose
  path (the part before a \<^verbatim>\<open>#\<close>) names nothing in the vault and does not end in
  \<^verbatim>\<open>.md\<close>: the second lookup is the path with \<^verbatim>\<open>.md\<close> appended; if that names a file,
  the file is opened; only otherwise, and after that lookup, the path is reported as not
  found.
\<close>

theorem md_retry_before_not_found:
  "(let dest = orElse currentPath (h_path hotspot);
        base = takeWhile (\<lambda>c. c \<noteq> CHR ''#'') dest;
        res = showZoneFiles vault hotspot currentPath
    in (trim dest = [] \<longrightarrow> res = ([], NoLinkedFolder)) \<and>
       (trim dest \<noteq> [] \<and> vault base = None \<and> \<not> endsWith base ''.md'' \<longrightarrow>
          take 2 (fst res) = [base, base @ ''.md''] \<and>
          (\<forall>f. vault (base @ ''.md'') = Some (TFile f) \<longrightarrow>
             fst res = [base, base @ ''.md''] \<and> (\<exists>sub. snd res = OpenedFile f sub)) \<and>
          ((\<forall>f. vault (base @ ''.md'') \<noteq> Some (TFile f)) \<longrightarrow>
             fst res = [base, base @ ''.md'', base] \<and> snd res = PathNotFound base)))"
  unfolding Let_def
proof (intro conjI impI)
  assume "trim (orElse currentPath (h_path hotspot)) = []"
  then show "showZoneFiles vault hotspot currentPath = ([], NoLinkedFolder)"
    by (rule showZoneFiles_blank)
next
  assume a: "trim (orElse currentPath (h_path hotspot)) \<noteq> [] \<and>
    vault (takeWhile (\<lambda>c. c \<noteq> CHR ''#'') (orElse currentPath (h_path hotspot))) = None \<and>
    \<not> endsWith (takeWhile (\<lambda>c. c \<noteq> CHR ''#'') (orElse currentPath (h_path hotspot))) ''.md''"
  then have 1: "trim (orElse currentPath (h_path hotspot)) \<noteq> []"
    and 2: "vault (takeWhile (\<lambda>c. c \<noteq> CHR ''#'') (orElse currentPath (h_path hotspot))) = None"
    and 3: "\<not> endsWith (takeWhile (\<lambda>c. c \<noteq> CHR ''#'') (orElse currentPath (h_path hotspot))) ''.md''"
    by simp_all
  note R = showZoneFiles_retry
    [where vault = vault and hotspot = hotspot and currentPath = currentPath, OF 1 2 3,
      unfolded Let_def]
  show "take 2 (fst (showZoneFiles vault hotspot currentPath)) =
      [takeWhile (\<lambda>c. c \<noteq> CHR ''#'') (orElse currentPath (h_path hotspot)),
       takeWhile (\<lambda>c. c \<noteq> CHR ''#'') (orElse currentPath (h_path hotspot)) @ ''.md'']"
    using R by blast
  show "\<forall>f. vault (takeWhile (\<lambda>c. c \<noteq> CHR ''#'') (orElse currentPath (h_path hotspot)) @ ''.md'') =
        Some (TFile f) \<longrightarrow>
      fst (showZoneFiles vault hotspot currentPath) =
        [takeWhile (\<lambda>c. c \<noteq> CHR ''#'') (orElse currentPath (h_path hotspot)),
         takeWhile (\<lambda>c. c \<noteq> CHR ''#'') (orElse currentPath (h_path hotspot)) @ ''.md''] \<and>
      (\<exists>sub. snd (showZoneFiles vault hotspot currentPath) = OpenedFile f sub)"
    using R by blast
  {
    assume n: "\<forall>f. vault (takeWhile (\<lambda>c. c \<noteq> CHR ''#'')
        (orElse currentPath (h_path hotspot)) @ ''.md'') \<noteq> Some (TFile f)"
    show "fst (showZoneFiles vault hotspot currentPath) =
        [takeWhile (\<lambda>c. c \<noteq> CHR ''#'') (orElse currentPath (h_path hotspot)),
         takeWhile (\<lambda>c. c \<noteq> CHR ''#'') (orElse currentPath (h_path hotspot)) @ ''.md'',
         takeWhile (\<lambda>c. c \<noteq> CHR ''#'') (orElse currentPath (h_path hotspot))]"
      using R n by blast
    show "snd (showZoneFiles vault hotspot currentPath) =
        PathNotFound (takeWhile (\<lambda>c. c \<noteq> CHR ''#'') (orElse currentPath (h_path hotspot)))"
      using R n by blast
  }
qed

theorem md_retry_before_not_found_witness:
  "showZoneFiles deskVault deskHotspot None =
     ([''notes/desk'', ''notes/desk.md''], OpenedFile ''notes/desk.md'' ''#Plan'') \<and>
   showZoneFiles emptyVault deskHotspot None =
     ([''notes/desk'', ''notes/desk.md'', ''notes/desk''], PathNotFound ''notes/desk'') \<and>
   showZoneFiles emptyVault blankHotspot None = ([], NoLinkedFolder) \<and>
   showZoneFiles deskVault (deskHotspot\<lparr>h_path := [CHR 0xA0]\<rparr>) None = ([], NoLinkedFolder)"
proof -
  have p0: "orElse None (h_path deskHotspot) = ''notes/desk#Plan''"
    by (simp add: orElse_def deskHotspot_def)
  have base: "takeWhile (\<lambda>c. c \<noteq> CHR ''#'') ''notes/desk#Plan'' = ''notes/desk''" by simp
  have t: "trim (orElse None (h_path deskHotspot)) \<noteq> []"
    unfolding p0 by (simp add: trim_def isSpace_def)
  have e: "\<not> endsWith (takeWhile (\<lambda>c. c \<noteq> CHR ''#'') (orElse None (h_path deskHotspot))) ''.md''"
    unfolding p0 base by (simp add: endsWith_def)
  have v1: "deskVault (takeWhile (\<lambda>c. c \<noteq> CHR ''#'') (orElse None (h_path deskHotspot))) = None"
    unfolding p0 base by (simp add: deskVault_def)
  have v2: "emptyVault (takeWhile (\<lambda>c. c \<noteq> CHR ''#'') (orElse None (h_path deskHotspot))) = None"
    by (simp add: emptyVault_def)
  have sub: "snd (showZoneFiles deskVault deskHotspot None) = OpenedFile f s \<Longrightarrow> s = ''#Plan''"
    for f s
    by (simp add: showZoneFiles_def Let_def p0 deskVault_def endsWith_def trim_def isSpace_def
        split: if_splits)
  note T1 = md_retry_before_not_found
    [where vault = deskVault and hotspot = deskHotspot and currentPath = None,
      unfolded Let_def, THEN conjunct2]
  note T2 = md_retry_before_not_found
    [where vault = emptyVault and hotspot = deskHotspot and currentPath = None,
      unfolded Let_def, THEN conjunct2]
  from T1 t v1 e
  have A: "fst (showZoneFiles deskVault deskHotspot None) = [''notes/desk'', ''notes/desk.md''] \<and>
      (\<exists>sub. snd (showZoneFiles deskVault deskHotspot None) = OpenedFile ''notes/desk.md'' sub)"
    unfolding p0 base by (simp add: deskVault_def)
  from T2 t v2 e
  have B: "fst (showZoneFiles emptyVault deskHotspot None) =
        [''notes/desk'', ''notes/desk.md'', ''notes/desk''] \<and>
      snd (showZoneFiles emptyVault deskHotspot None) = PathNotFound ''notes/desk''"
    unfolding p0 base by (simp add: emptyVault_def)
  from A sub have A': "snd (showZoneFiles deskVault deskHotspot None) =
      OpenedFile ''notes/desk.md'' ''#Plan''" by blast
  have b1: "trim (orElse None (h_path blankHotspot)) = []"
    by (simp add: blankHotspot_def orElse_def trim_def isSpace_def)
  have b2: "trim (orElse None (h_path (deskHotspot\<lparr>h_path := [CHR 0xA0]\<rparr>))) = []"
    by (simp add: orElse_def trim_def isSpace_def)
  from md_retry_before_not_found
    [where vault = emptyVault and hotspot = blankHotspot and currentPath = None,
      unfolded Let_def, THEN conjunct1] b1
  have C: "showZoneFiles emptyVault blankHotspot None = ([], NoLinkedFolder)" by blast
  from md_retry_before_not_found
    [where vault = deskVault and hotspot = "deskHotspot\<lparr>h_path := [CHR 0xA0]\<rparr>"
      and currentPath = None, unfolded Let_def, THEN conjunct1] b2
  have D: "showZoneFiles deskVault (deskHotspot\<lparr>h_path := [CHR 0xA0]\<rparr>) None =
      ([], NoLinkedFolder)" by blast
  show ?thesis using A A' B C D by (simp add: prod_eq_iff)
qed

end
